theory Spec2Isabelle
  imports Main "HOL-Library.Word"
begin

section \<open>Python string and list primitives used by \<open>nf_core/modules.py\<close>\<close>

text \<open>
  Python strings are modelled as \<open>string\<close> (lists of characters). The three tests the
  source applies to a path, \<open>str.startswith\<close>, \<open>str.endswith\<close> and the substring test
  \<open>x in s\<close>, are written as executable functions on lists.
\<close>

definition startswith :: "'a list \<Rightarrow> 'a list \<Rightarrow> bool" where
  "startswith s p = (take (length p) s = p)"

definition endswith :: "'a list \<Rightarrow> 'a list \<Rightarrow> bool" where
  "endswith s p = (length p \<le> length s \<and> drop (length s - length p) s = p)"

fun contains :: "'a list \<Rightarrow> 'a list \<Rightarrow> bool" where
  "contains [] p = (p = [])"
| "contains (c # cs) p = (startswith (c # cs) p \<or> contains cs p)"

text \<open>
  A Python slice \<open>s[i:j]\<close> with possibly negative bounds: a negative bound counts from
  the end, and both bounds are clipped to the range of the sequence; an empty range
  gives the empty sequence.
\<close>

definition slice_bound :: "nat \<Rightarrow> int \<Rightarrow> nat" where
  "slice_bound n i = (if i < 0 then nat (max 0 (int n + i)) else min n (nat i))"

definition py_slice :: "'a list \<Rightarrow> int \<Rightarrow> int \<Rightarrow> 'a list" where
  "py_slice s i j =
     (let a = slice_bound (length s) i; b = slice_bound (length s) j
      in take (b - a) (drop a s))"

section \<open>Data model\<close>

text \<open>\<open>ModulesRepo\<close>: the repository name and the branch, set by the constructor.\<close>

record ModulesRepo =
  name :: string
  branch :: string

definition ModulesRepo_init :: "string \<Rightarrow> string \<Rightarrow> ModulesRepo" where
  "ModulesRepo_init repo br = \<lparr>name = repo, branch = br\<rparr>"

definition ModulesRepo_default :: ModulesRepo where
  "ModulesRepo_default = ModulesRepo_init ''nf-core/modules'' ''master''"

text \<open>
  One element of the \<open>tree\<close> array of the git-tree response. The source reads the keys
  \<open>path\<close>, \<open>type\<close> and \<open>url\<close>; \<open>type\<close> is compared as a string with \<open>"blob"\<close>.
\<close>

record entry =
  path :: string
  type :: string
  url :: string
  sha :: string

text \<open>Bytes are 8-bit words.\<close>

type_synonym byte = "8 word"

text \<open>
  The JSON bodies the source reads: the tree listing (keys \<open>truncated\<close>, \<open>sha\<close>,
  \<open>tree\<close>), a blob (key \<open>content\<close>), and any other object, on which each of these
  key lookups raises \<open>KeyError\<close>.
\<close>

datatype json_body =
  TreeJson bool string "entry list"
| BlobJson string
| OtherJson

record response =
  status_code :: int
  json :: json_body

text \<open>
  The exceptions of the model. \<open>SystemExit\<close> is what \<open>sys.exit\<close> raises (it carries the
  exit status), \<open>SystemError\<close> carries the HTTP status the source reports.
\<close>

datatype exn =
  SystemExit int
| SystemError int
| AssertionError
| KeyError
| ValueError
| BinasciiError
| FileNotFoundError
| FileExistsError
| NotADirectoryError
| IsADirectoryError

text \<open>The values \<open>install\<close> can return: \<open>False\<close>, \<open>True\<close>, or \<open>None\<close> when no
  \<open>return\<close> statement is reached.\<close>

datatype pyval = PyNone | PyBool bool

text \<open>
  The file system is the set of directories and the contents of the regular files,
  both keyed by the path string as the program passes it. The world is the file system
  together with the log of the URLs requested so far, oldest first.
\<close>

record filesystem =
  dirs :: "string set"
  regular_files :: "string \<rightharpoonup> byte list"

record world =
  fs :: filesystem
  requests :: "string list"

text \<open>The fields of a \<open>PipelineModules\<close> object.\<close>

record PipelineModules =
  modules_repo :: ModulesRepo
  pipeline_dir :: string
  modules_file_tree :: "entry list"
  modules_current_hash :: "string option"
  modules_avail_module_names :: "string list"

text \<open>
  The constructor; \<open>cwd\<close> is the value of \<open>os.getcwd()\<close>. The file tree starts as an
  empty container, the hash as \<open>None\<close>, the list of names as \<open>[]\<close>.
\<close>

definition PipelineModules_init :: "ModulesRepo \<Rightarrow> string \<Rightarrow> PipelineModules" where
  "PipelineModules_init modules_repo_obj cwd =
     \<lparr>modules_repo = modules_repo_obj, pipeline_dir = cwd, modules_file_tree = [],
      modules_current_hash = None, modules_avail_module_names = []\<rparr>"

text \<open>
  A method returns its result (an exception or a value) together with the object and
  the world as it leaves them.
\<close>

type_synonym 'a run = "(exn + 'a) \<times> PipelineModules \<times> world"

text \<open>\<open>requests.get\<close>: the server is a function from URLs to responses; the request is
  logged.\<close>

definition requests_get :: "(string \<Rightarrow> response) \<Rightarrow> string \<Rightarrow> world \<Rightarrow> response \<times> world" where
  "requests_get http u w = (http u, w\<lparr>requests := requests w @ [u]\<rparr>)"

section \<open>\<open>get_modules_file_tree\<close>\<close>

definition tree_api_url :: "ModulesRepo \<Rightarrow> string" where
  "tree_api_url r =
     ''https://api.github.com/repos/'' @ name r @ ''/git/trees/'' @ branch r @ ''?recursive=1''"

text \<open>The test of the loop at the end of \<open>get_modules_file_tree\<close>.\<close>

definition is_module_main :: "entry \<Rightarrow> bool" where
  "is_module_main f =
     (startswith (path f) ''software/'' \<and> endswith (path f) ''/main.nf''
      \<and> \<not> contains (path f) ''/test/'')"

text \<open>The loop itself: it appends to the list of names it is given.\<close>

fun append_module_names :: "entry list \<Rightarrow> string list \<Rightarrow> string list" where
  "append_module_names [] names = names"
| "append_module_names (f # rest) names =
     append_module_names rest
       (if is_module_main f then names @ [py_slice (path f) 9 (- 8)] else names)"

definition get_modules_file_tree ::
  "(string \<Rightarrow> response) \<Rightarrow> PipelineModules \<Rightarrow> world \<Rightarrow> unit run" where
  "get_modules_file_tree http self w =
     (let api_url = tree_api_url (modules_repo self);
          (r, w1) = requests_get http api_url w
      in if status_code r = 404 then (Inl (SystemExit 1), self, w1)
         else if status_code r \<noteq> 200 then (Inl (SystemError (status_code r)), self, w1)
         else (case json r of
                 TreeJson truncated tree_sha tree \<Rightarrow>
                   if truncated \<noteq> False then (Inl AssertionError, self, w1)
                   else (Inr (),
                         self\<lparr>modules_current_hash := Some tree_sha,
                              modules_file_tree := tree,
                              modules_avail_module_names :=
                                append_module_names tree (modules_avail_module_names self)\<rparr>,
                         w1)
               | _ \<Rightarrow> (Inl KeyError, self, w1)))"

section \<open>\<open>get_module_file_urls\<close>\<close>

text \<open>
  A Python dictionary keeps its keys in insertion order; assigning to a key that is
  already present replaces the value and keeps the key's position. It is modelled as an
  association list with distinct keys.
\<close>

fun dict_setitem :: "('k \<times> 'v) list \<Rightarrow> 'k \<Rightarrow> 'v \<Rightarrow> ('k \<times> 'v) list" where
  "dict_setitem [] k v = [(k, v)]"
| "dict_setitem ((k', v') # d) k v =
     (if k' = k then (k, v) # d else (k', v') # dict_setitem d k v)"

text \<open>The test of the loop of \<open>get_module_file_urls\<close>.\<close>

definition is_module_blob :: "string \<Rightarrow> entry \<Rightarrow> bool" where
  "is_module_blob module f =
     (startswith (path f) (''software/'' @ module) \<and> type f = ''blob'')"

fun collect_file_urls ::
  "string \<Rightarrow> entry list \<Rightarrow> (string \<times> string) list \<Rightarrow> (string \<times> string) list" where
  "collect_file_urls module [] results = results"
| "collect_file_urls module (f # rest) results =
     collect_file_urls module rest
       (if is_module_blob module f then dict_setitem results (path f) (url f) else results)"

definition get_module_file_urls ::
  "string \<Rightarrow> PipelineModules \<Rightarrow> world \<Rightarrow> (string \<times> string) list run" where
  "get_module_file_urls module self w =
     (Inr (collect_file_urls module (modules_file_tree self) []), self, w)"

section \<open>Paths and the file system\<close>

text \<open>
  \<open>posixpath.join\<close>: a component that starts with a slash replaces what was joined so
  far; otherwise it is appended, after a slash unless the path so far is empty or ends
  with one.
\<close>

definition join_step :: "string \<Rightarrow> string \<Rightarrow> string" where
  "join_step p b =
     (if startswith b ''/'' then b
      else if p = [] \<or> endswith p ''/'' then p @ b
      else p @ ''/'' @ b)"

definition os_path_join :: "string \<Rightarrow> string list \<Rightarrow> string" where
  "os_path_join a ps = foldl join_step a ps"

text \<open>
  \<open>posixpath.split\<close>: the head is everything up to and including the last slash, with
  its trailing slashes removed unless it consists of slashes only; the tail is what
  follows the last slash. \<open>posixpath.dirname\<close> is the head.
\<close>

definition rstrip_slash :: "string \<Rightarrow> string" where
  "rstrip_slash s = rev (dropWhile (\<lambda>c. c = CHR ''/'') (rev s))"

definition all_slashes :: "string \<Rightarrow> bool" where
  "all_slashes s = (s = replicate (length s) (CHR ''/''))"

definition os_path_split :: "string \<Rightarrow> string \<times> string" where
  "os_path_split p =
     (let head = rev (dropWhile (\<lambda>c. c \<noteq> CHR ''/'') (rev p));
          tail = rev (takeWhile (\<lambda>c. c \<noteq> CHR ''/'') (rev p))
      in (if head \<noteq> [] \<and> \<not> all_slashes head then rstrip_slash head else head, tail))"

definition os_path_dirname :: "string \<Rightarrow> string" where
  "os_path_dirname p = fst (os_path_split p)"

text \<open>
  The file system calls. Paths are keys as written: the model has no symbolic links and
  does not identify different spellings of one path. The empty path names nothing; an
  empty parent stands for the current directory and a parent of slashes for the root,
  which both exist.
\<close>

definition os_path_exists :: "filesystem \<Rightarrow> string \<Rightarrow> bool" where
  "os_path_exists s p = (p \<in> dirs s \<or> regular_files s p \<noteq> None)"

definition dir_present :: "filesystem \<Rightarrow> string \<Rightarrow> bool" where
  "dir_present s d = (d = [] \<or> all_slashes d \<or> d \<in> dirs s)"

text \<open>The pair \<open>(head, tail)\<close> as \<open>os.makedirs\<close> computes it: the path is split, and
  split once more when the tail is empty (a trailing slash).\<close>

definition makedirs_split :: "string \<Rightarrow> string \<times> string" where
  "makedirs_split nm =
     (if snd (os_path_split nm) = [] then os_path_split (fst (os_path_split nm))
      else os_path_split nm)"

definition os_mkdir :: "filesystem \<Rightarrow> string \<Rightarrow> exn + filesystem" where
  "os_mkdir s nm =
     (if nm = [] then Inl FileNotFoundError
      else if os_path_exists s nm then Inl FileExistsError
      else if regular_files s (fst (makedirs_split nm)) \<noteq> None then Inl NotADirectoryError
      else if \<not> dir_present s (fst (makedirs_split nm)) then Inl FileNotFoundError
      else Inr (s\<lparr>dirs := insert nm (dirs s)\<rparr>))"

text \<open>\<open>open(nm, "wb")\<close> followed by one \<open>write\<close>: the file is created or truncated and
  holds the bytes written.\<close>

definition open_wb_write :: "filesystem \<Rightarrow> string \<Rightarrow> byte list \<Rightarrow> exn + filesystem" where
  "open_wb_write s nm b =
     (if nm = [] then Inl FileNotFoundError
      else if nm \<in> dirs s \<or> snd (os_path_split nm) = [] then Inl IsADirectoryError
      else if regular_files s (os_path_dirname nm) \<noteq> None then Inl NotADirectoryError
      else if \<not> dir_present s (os_path_dirname nm) then Inl FileNotFoundError
      else Inr (s\<lparr>regular_files := (regular_files s)(nm \<mapsto> b)\<rparr>))"

text \<open>
  \<open>os.makedirs\<close> follows the library's recursion: when the head is not empty, the tail is
  not empty and the head does not exist, the head is made first (a \<open>FileExistsError\<close>
  from that call is ignored) and a tail \<open>.\<close> ends the call; then the directory itself
  is made. The recursion ends because the head is shorter than the path.
\<close>

lemma rstrip_slash_length: "length (rstrip_slash s) \<le> length s"
  using length_dropWhile_le [of "\<lambda>c. c = CHR ''/''" "rev s"] by (simp add: rstrip_slash_def)

lemma os_path_split_length:
  "length (fst (os_path_split p)) + length (snd (os_path_split p)) \<le> length p"
proof -
  let ?h = "rev (dropWhile (\<lambda>c. c \<noteq> CHR ''/'') (rev p))"
  let ?t = "rev (takeWhile (\<lambda>c. c \<noteq> CHR ''/'') (rev p))"
  have "length ?h + length ?t = length p"
    by (metis add.commute length_append length_rev takeWhile_dropWhile_id)
  moreover have "length (fst (os_path_split p)) \<le> length ?h"
    using rstrip_slash_length [of ?h] by (simp add: os_path_split_def Let_def)
  moreover have "snd (os_path_split p) = ?t"
    by (simp add: os_path_split_def Let_def)
  ultimately show ?thesis by simp
qed

lemma makedirs_split_shorter:
  assumes "snd (makedirs_split nm) \<noteq> []"
  shows "length (fst (makedirs_split nm)) < length nm"
proof (cases "snd (os_path_split nm) = []")
  case True
  then have eq: "makedirs_split nm = os_path_split (fst (os_path_split nm))"
    by (simp add: makedirs_split_def)
  from assms eq have "length (snd (os_path_split (fst (os_path_split nm)))) > 0" by simp
  with os_path_split_length [of "fst (os_path_split nm)"] os_path_split_length [of nm]
  show ?thesis unfolding eq by linarith
next
  case False
  then have eq: "makedirs_split nm = os_path_split nm"
    by (simp add: makedirs_split_def)
  from False have "length (snd (os_path_split nm)) > 0" by simp
  with os_path_split_length [of nm] show ?thesis unfolding eq by linarith
qed

function os_makedirs :: "filesystem \<Rightarrow> string \<Rightarrow> exn + filesystem" where
  "os_makedirs s nm =
     (if fst (makedirs_split nm) \<noteq> [] \<and> snd (makedirs_split nm) \<noteq> []
         \<and> \<not> os_path_exists s (fst (makedirs_split nm))
      then (case os_makedirs s (fst (makedirs_split nm)) of
              Inl e \<Rightarrow>
                if e = FileExistsError
                then (if snd (makedirs_split nm) = ''.'' then Inr s else os_mkdir s nm)
                else Inl e
            | Inr s1 \<Rightarrow> if snd (makedirs_split nm) = ''.'' then Inr s1 else os_mkdir s1 nm)
      else os_mkdir s nm)"
  by pat_completeness auto
termination
  by (relation "measure (\<lambda>(s, nm). length nm)") (auto simp: makedirs_split_shorter)

declare os_makedirs.simps [simp del]

section \<open>Base64\<close>

text \<open>
  \<open>base64.b64encode\<close> and \<open>base64.b64decode\<close> with the standard alphabet. The decoder is
  the state machine of \<open>binascii.a2b_base64\<close> in its default mode: a character outside
  the alphabet is skipped, each group of four characters gives three bytes, padding that
  completes a group ends the input, and data that stops inside a group is an error.
  \<open>quad_pos\<close> is the position in the group, \<open>leftchar\<close> the bits not yet written,
  \<open>pads\<close> the padding characters seen since the last data character.
\<close>

definition b64_alphabet :: string where
  "b64_alphabet = ''ABCDEFGHIJKLMNOPQRSTUVWXYZabcdefghijklmnopqrstuvwxyz0123456789+/''"

definition table_b2a :: "nat \<Rightarrow> char" where
  "table_b2a i = b64_alphabet ! i"

fun index_of :: "'a \<Rightarrow> 'a list \<Rightarrow> nat option" where
  "index_of c [] = None"
| "index_of c (x # xs) = (if x = c then Some 0 else map_option Suc (index_of c xs))"

definition table_a2b :: "char \<Rightarrow> nat option" where
  "table_a2b c = index_of c b64_alphabet"

fun b64encode :: "byte list \<Rightarrow> string" where
  "b64encode [] = []"
| "b64encode [a] =
     [table_b2a (unat a div 4), table_b2a (unat a mod 4 * 16), CHR ''='', CHR ''='']"
| "b64encode [a, b] =
     [table_b2a (unat a div 4), table_b2a (unat a mod 4 * 16 + unat b div 16),
      table_b2a (unat b mod 16 * 4), CHR ''='']"
| "b64encode (a # b # c # rest) =
     [table_b2a (unat a div 4), table_b2a (unat a mod 4 * 16 + unat b div 16),
      table_b2a (unat b mod 16 * 4 + unat c div 64), table_b2a (unat c mod 64)]
     @ b64encode rest"

fun a2b_base64 :: "string \<Rightarrow> nat \<Rightarrow> nat \<Rightarrow> nat \<Rightarrow> byte list \<Rightarrow> exn + byte list" where
  "a2b_base64 [] quad_pos leftchar pads out =
     (if quad_pos \<noteq> 0 then Inl BinasciiError else Inr out)"
| "a2b_base64 (c # cs) quad_pos leftchar pads out =
     (if c = CHR ''='' then
        (if quad_pos \<ge> 2
         then (if quad_pos + (pads + 1) \<ge> 4 then Inr out
               else a2b_base64 cs quad_pos leftchar (pads + 1) out)
         else a2b_base64 cs quad_pos leftchar pads out)
      else (case table_a2b c of
              None \<Rightarrow> a2b_base64 cs quad_pos leftchar pads out
            | Some this_ch \<Rightarrow>
                if quad_pos = 0 then a2b_base64 cs 1 this_ch 0 out
                else if quad_pos = 1
                  then a2b_base64 cs 2 (this_ch mod 16) 0
                         (out @ [of_nat (leftchar * 4 + this_ch div 16)])
                else if quad_pos = 2
                  then a2b_base64 cs 3 (this_ch mod 4) 0
                         (out @ [of_nat (leftchar * 16 + this_ch div 4)])
                else a2b_base64 cs 0 0 0 (out @ [of_nat (leftchar * 64 + this_ch)])))"

text \<open>\<open>b64decode\<close> of a string: a character that is not ASCII is a \<open>ValueError\<close>.\<close>

definition b64decode :: "string \<Rightarrow> exn + byte list" where
  "b64decode s =
     (if list_all (\<lambda>c. (of_char c :: nat) < 128) s then a2b_base64 s 0 0 0 []
      else Inl ValueError)"

section \<open>\<open>download_gh_file\<close>\<close>

definition download_gh_file ::
  "(string \<Rightarrow> response) \<Rightarrow> string \<Rightarrow> string \<Rightarrow> PipelineModules \<Rightarrow> world \<Rightarrow> unit run" where
  "download_gh_file http dl_filename api_url self w =
     (let dl_directory = os_path_dirname dl_filename
      in case (if \<not> os_path_exists (fs w) dl_directory
               then os_makedirs (fs w) dl_directory else Inr (fs w)) of
           Inl e \<Rightarrow> (Inl e, self, w)
         | Inr s1 \<Rightarrow>
             (let (r, w2) = requests_get http api_url (w\<lparr>fs := s1\<rparr>)
              in if status_code r \<noteq> 200 then (Inl (SystemError (status_code r)), self, w2)
                 else (case json r of
                         BlobJson content \<Rightarrow>
                           (case b64decode content of
                              Inl e \<Rightarrow> (Inl e, self, w2)
                            | Inr file_contents \<Rightarrow>
                                (case open_wb_write (fs w2) dl_filename file_contents of
                                   Inl e \<Rightarrow> (Inl e, self, w2)
                                 | Inr s3 \<Rightarrow> (Inr (), self, w2\<lparr>fs := s3\<rparr>)))
                       | _ \<Rightarrow> (Inl KeyError, self, w2))))"

section \<open>\<open>install\<close>\<close>

text \<open>The download loop over the items of the dictionary, in its order; an exception
  ends it. Falling off its end, \<open>install\<close> returns \<open>None\<close>.\<close>

fun install_loop ::
  "(string \<Rightarrow> response) \<Rightarrow> (string \<times> string) list \<Rightarrow> PipelineModules \<Rightarrow> world \<Rightarrow> pyval run" where
  "install_loop http [] self w = (Inr PyNone, self, w)"
| "install_loop http ((filename, api_url) # rest) self w =
     (case download_gh_file http
             (os_path_join (pipeline_dir self) [''modules'', filename]) api_url self w of
        (Inl e, self1, w1) \<Rightarrow> (Inl e, self1, w1)
      | (Inr u, self1, w1) \<Rightarrow> install_loop http rest self1 w1)"

definition install :: "(string \<Rightarrow> response) \<Rightarrow> string \<Rightarrow> PipelineModules \<Rightarrow> world \<Rightarrow> pyval run" where
  "install http module self w =
     (case get_modules_file_tree http self w of
        (Inl e, self1, w1) \<Rightarrow> (Inl e, self1, w1)
      | (Inr u, self1, w1) \<Rightarrow>
          if module \<notin> set (modules_avail_module_names self1)
          then (Inr (PyBool False), self1, w1)
          else (let module_dir =
                      os_path_join (pipeline_dir self1) [''modules'', ''software'', module]
                in if os_path_exists (fs w1) module_dir
                   then (Inr (PyBool False), self1, w1)
                   else (case get_module_file_urls module self1 w1 of
                           (Inl e, self2, w2) \<Rightarrow> (Inl e, self2, w2)
                         | (Inr files, self2, w2) \<Rightarrow> install_loop http files self2 w2)))"

section \<open>Example inputs\<close>

text \<open>
  A small tree response, a repository, a freshly constructed object, a world whose file
  system holds the working directory only, and a server that answers the tree request
  with a given status and body and three blob requests with base64 content.
\<close>

definition example_tree :: "entry list" where
  "example_tree =
     [\<lparr>path = ''software/fastqc'', type = ''tree'', url = ''t1'', sha = ''s1''\<rparr>,
      \<lparr>path = ''software/fastqc/main.nf'', type = ''blob'', url = ''u1'', sha = ''s2''\<rparr>,
      \<lparr>path = ''software/fastqc/test/main.nf'', type = ''blob'', url = ''u2'', sha = ''s3''\<rparr>,
      \<lparr>path = ''software/fastqc/meta.yml'', type = ''blob'', url = ''u3'', sha = ''s4''\<rparr>,
      \<lparr>path = ''README.md'', type = ''blob'', url = ''u4'', sha = ''s5''\<rparr>]"

definition example_repo :: ModulesRepo where
  "example_repo = ModulesRepo_init ''r'' ''b''"

definition example_self :: PipelineModules where
  "example_self = PipelineModules_init example_repo ''/w''"

definition example_world :: world where
  "example_world = \<lparr>fs = \<lparr>dirs = {''/w''}, regular_files = Map.empty\<rparr>, requests = []\<rparr>"

definition example_http :: "int \<Rightarrow> json_body \<Rightarrow> string \<Rightarrow> response" where
  "example_http st body u =
     (if u = tree_api_url example_repo then \<lparr>status_code = st, json = body\<rparr>
      else if u = ''u1'' then \<lparr>status_code = 200, json = BlobJson ''aGk=''\<rparr>
      else if u = ''u2'' then \<lparr>status_code = 200, json = BlobJson ''''\<rparr>
      else if u = ''u3'' then \<lparr>status_code = 200, json = BlobJson ''eQ==''\<rparr>
      else \<lparr>status_code = 404, json = OtherJson\<rparr>)"

text \<open>The object after a successful fetch of the example tree, and an entry of another
  module whose name starts with \<open>foo\<close>.\<close>

definition example_fetched :: PipelineModules where
  "example_fetched =
     example_self\<lparr>modules_current_hash := Some ''h'', modules_file_tree := example_tree,
                  modules_avail_module_names := [''fastqc'']\<rparr>"

definition example_foobar :: entry where
  "example_foobar =
     \<lparr>path = ''software/foobar/main.nf'', type = ''blob'', url = ''u5'', sha = ''s6''\<rparr>"

text \<open>The server that answers the tree request with the example tree, and a world in
  which the module directory of \<open>fastqc\<close> is already there.\<close>

definition example_world_installed :: world where
  "example_world_installed =
     \<lparr>fs = \<lparr>dirs = {''/w'', ''/w/modules'', ''/w/modules/software'',
                     ''/w/modules/software/fastqc''},
            regular_files = Map.empty\<rparr>,
      requests = []\<rparr>"

definition example_server :: "string \<Rightarrow> response" where
  "example_server = example_http 200 (TreeJson False ''h'' example_tree)"

section \<open>Properties of the primitives\<close>

text \<open>The three string tests are the prefix, suffix and substring relations.\<close>

lemma startswith_append: "startswith s p \<Longrightarrow> s = p @ drop (length p) s"
  unfolding startswith_def by (metis append_take_drop_id)

lemma endswith_append: "endswith s p \<Longrightarrow> s = take (length s - length p) s @ p"
  unfolding endswith_def by (metis append_take_drop_id)

lemma startswith_iff: "startswith s p \<longleftrightarrow> (\<exists>r. s = p @ r)"
  unfolding startswith_def by (metis append_eq_conv_conj append_take_drop_id)

lemma endswith_iff: "endswith s p \<longleftrightarrow> (\<exists>r. s = r @ p)"
proof
  assume "endswith s p"
  from endswith_append [OF this] show "\<exists>r. s = r @ p" by blast
next
  assume "\<exists>r. s = r @ p"
  then obtain r where "s = r @ p" ..
  then show "endswith s p" by (simp add: endswith_def)
qed

lemma contains_iff: "contains s p \<longleftrightarrow> (\<exists>a b. s = a @ p @ b)"
proof (induction s)
  case Nil
  show ?case by auto
next
  case (Cons c cs)
  show ?case
  proof
    assume "contains (c # cs) p"
    then consider "startswith (c # cs) p" | "contains cs p" by auto
    then show "\<exists>a b. c # cs = a @ p @ b"
    proof cases
      case 1
      then obtain r where "c # cs = p @ r" by (auto simp: startswith_iff)
      then have "c # cs = [] @ p @ r" by simp
      then show ?thesis by blast
    next
      case 2
      with Cons.IH obtain a b where "cs = a @ p @ b" by blast
      then have "c # cs = (c # a) @ p @ b" by simp
      then show ?thesis by blast
    qed
  next
    assume "\<exists>a b. c # cs = a @ p @ b"
    then obtain a b where ab: "c # cs = a @ p @ b" by blast
    show "contains (c # cs) p"
    proof (cases a)
      case Nil
      with ab have "startswith (c # cs) p" by (auto simp: startswith_iff)
      then show ?thesis by simp
    next
      case (Cons x a')
      with ab have "cs = a' @ p @ b" by simp
      with Cons.IH have "contains cs p" by blast
      then show ?thesis by simp
    qed
  qed
qed

lemma append_module_names_eq:
  "append_module_names tree names
     = names @ map (\<lambda>f. py_slice (path f) 9 (- 8)) (filter is_module_main tree)"
  by (induction tree arbitrary: names) simp_all

lemma py_slice_9_8: "py_slice s 9 (- 8) = drop 9 (take (length s - 8) s)"
  by (simp add: py_slice_def slice_bound_def Let_def drop_take min_def max_def nat_diff_distrib)

lemma len_software: "length ''software/'' = 9"
  by simp

lemma len_main_nf: "length ''/main.nf'' = 8"
  by simp

lemma startswith_software: "startswith s ''software/'' \<Longrightarrow> s = ''software/'' @ drop 9 s"
  using startswith_append [of s "''software/''"] by (simp only: len_software)

lemma endswith_main_nf:
  "endswith s ''/main.nf'' \<Longrightarrow> s = take (length s - 8) s @ ''/main.nf'' \<and> 8 \<le> length s"
  using endswith_append [of s "''/main.nf''"] by (simp only: len_main_nf endswith_def)

lemma module_path_long:
  assumes "is_module_main f" "17 \<le> length (path f)"
  shows "path f = ''software/'' @ py_slice (path f) 9 (- 8) @ ''/main.nf''"
proof -
  let ?p = "path f"
  let ?q = "take (length ?p - 8) ?p"
  from assms(1) have e: "endswith ?p ''/main.nf''" and s: "startswith ?p ''software/''"
    by (simp_all add: is_module_main_def)
  from endswith_main_nf [OF e] have p: "?p = ?q @ ''/main.nf''" by simp
  have "9 \<le> length ?p - 8" using assms(2) by linarith
  then have "take 9 ?q = take 9 ?p"
    by (simp add: min_absorb1)
  moreover have "take 9 ?p = ''software/''"
    using s by (simp only: startswith_def len_software)
  ultimately have "startswith ?q ''software/''"
    by (simp only: startswith_def len_software)
  from startswith_software [OF this] have "?q = ''software/'' @ drop 9 ?q" .
  then have "?q @ ''/main.nf'' = (''software/'' @ drop 9 ?q) @ ''/main.nf''" by simp
  with p have "?p = (''software/'' @ drop 9 ?q) @ ''/main.nf''" by simp
  then show ?thesis by (simp only: py_slice_9_8 append_assoc)
qed

lemma module_path_short:
  assumes "is_module_main f" "length (path f) < 17"
  shows "path f = ''software/main.nf'' \<and> py_slice (path f) 9 (- 8) = []"
proof -
  let ?p = "path f"
  let ?i = "length ?p - 8"
  from assms(1) have e: "endswith ?p ''/main.nf''" and s: "startswith ?p ''software/''"
    by (simp_all add: is_module_main_def)
  from startswith_software [OF s] have p1: "?p = ''software/'' @ drop 9 ?p" .
  from endswith_main_nf [OF e] have p2: "?p = take ?i ?p @ ''/main.nf''" and l8: "8 \<le> length ?p"
    by simp_all
  have "length ?p = length (''software/'' @ drop 9 ?p)" using p1 by simp
  then have l9: "9 \<le> length ?p" by (simp only: length_append len_software)
  have li: "length (take ?i ?p) = ?i" by simp
  have "?p ! ?i = (take ?i ?p @ ''/main.nf'') ! ?i" using p2 by simp
  also have "\<dots> = ''/main.nf'' ! 0"
    using nth_append_length_plus [of "take ?i ?p" "''/main.nf''" 0] by (simp only: li) simp
  finally have slash: "?p ! ?i = CHR ''/''" by simp
  have pre: "?p ! j = ''software/'' ! j" if "j < 9" for j
  proof -
    have "?p ! j = (''software/'' @ drop 9 ?p) ! j" using p1 by simp
    also have "\<dots> = ''software/'' ! j" using that by (simp only: nth_append len_software if_True)
    finally show ?thesis .
  qed
  from l9 assms(2) consider "?i = 1" | "?i = 2" | "?i = 3" | "?i = 4" | "?i = 5" | "?i = 6"
    | "?i = 7" | "?i = 8" by linarith
  then have i8: "?i = 8"
  proof cases
    case 1 with slash pre [of 1] show ?thesis by simp
  next
    case 2 with slash pre [of 2] show ?thesis by simp
  next
    case 3 with slash pre [of 3] show ?thesis by simp
  next
    case 4 with slash pre [of 4] show ?thesis by simp
  next
    case 5 with slash pre [of 5] show ?thesis by simp
  next
    case 6 with slash pre [of 6] show ?thesis by simp
  next
    case 7 with slash pre [of 7] show ?thesis by simp
  next
    case 8 then show ?thesis .
  qed
  have "take 8 ?p = take 8 (''software/'' @ drop 9 ?p)" using p1 by simp
  then have t8: "take 8 ?p = ''software''" by simp
  from p2 i8 t8 have "?p = ''software'' @ ''/main.nf''" by simp
  then have "?p = ''software/main.nf''" by simp
  moreover have "py_slice ?p 9 (- 8) = []"
    using i8 by (simp add: py_slice_9_8)
  ultimately show ?thesis by simp
qed

section \<open>Properties of \<open>get_modules_file_tree\<close>\<close>

lemma get_modules_file_tree_ok:
  assumes "http (tree_api_url (modules_repo self))
             = \<lparr>status_code = 200, json = TreeJson False tree_sha tree\<rparr>"
  shows "get_modules_file_tree http self w =
           (Inr (),
            self\<lparr>modules_current_hash := Some tree_sha, modules_file_tree := tree,
                 modules_avail_module_names :=
                   append_module_names tree (modules_avail_module_names self)\<rparr>,
            w\<lparr>requests := requests w @ [tree_api_url (modules_repo self)]\<rparr>)"
  using assms by (simp add: get_modules_file_tree_def requests_get_def)

lemma example_http_tree:
  "example_http st body (tree_api_url (modules_repo example_self))
     = \<lparr>status_code = st, json = body\<rparr>"
  by (simp add: example_http_def example_self_def PipelineModules_init_def)

lemma example_names:
  "map (\<lambda>f. py_slice (path f) 9 (- 8))
     (filter (\<lambda>f. startswith (path f) ''software/'' \<and> endswith (path f) ''/main.nf''
                  \<and> \<not> contains (path f) ''/test/'') example_tree) = [''fastqc'']"
  by (simp add: example_tree_def startswith_def endswith_def py_slice_9_8)

text \<open>
  Claim C1. On a successful, non-truncated tree response \<open>get_modules_file_tree\<close>
  appends to the list of names, in the order of the tree, the name of each entry whose
  path starts with \<open>software/\<close>, ends with \<open>/main.nf\<close> and does not contain \<open>/test/\<close>,
  and of no other entry; the name is the slice \<open>path[9:-8]\<close>. On an object whose list of
  names is empty, as the constructor leaves it, the list is exactly these names. A
  selected path of at least 17 characters is \<open>software/\<close>, the name, \<open>/main.nf\<close>; the
  only shorter selected path is \<open>software/main.nf\<close>, whose name is empty.
\<close>

theorem get_modules_file_tree_names:
  assumes "http (tree_api_url (modules_repo self))
             = \<lparr>status_code = 200, json = TreeJson False tree_sha tree\<rparr>"
  shows "modules_avail_module_names (fst (snd (get_modules_file_tree http self w)))
           = modules_avail_module_names self
             @ map (\<lambda>f. py_slice (path f) 9 (- 8))
                 (filter (\<lambda>f. startswith (path f) ''software/'' \<and> endswith (path f) ''/main.nf''
                              \<and> \<not> contains (path f) ''/test/'') tree)
         \<and> (modules_avail_module_names self = [] \<longrightarrow>
              modules_avail_module_names (fst (snd (get_modules_file_tree http self w)))
                = map (\<lambda>f. py_slice (path f) 9 (- 8))
                    (filter (\<lambda>f. startswith (path f) ''software/''
                                 \<and> endswith (path f) ''/main.nf''
                                 \<and> \<not> contains (path f) ''/test/'') tree))
         \<and> (\<forall>f \<in> set tree. is_module_main f \<and> 17 \<le> length (path f) \<longrightarrow>
                path f = ''software/'' @ py_slice (path f) 9 (- 8) @ ''/main.nf'')
         \<and> (\<forall>f \<in> set tree. is_module_main f \<and> length (path f) < 17 \<longrightarrow>
                path f = ''software/main.nf'' \<and> py_slice (path f) 9 (- 8) = [])"
proof -
  have flt: "filter (\<lambda>f. startswith (path f) ''software/'' \<and> endswith (path f) ''/main.nf''
                              \<and> \<not> contains (path f) ''/test/'') tree = filter is_module_main tree"
    by (simp add: is_module_main_def [abs_def])
  have "modules_avail_module_names (fst (snd (get_modules_file_tree http self w)))
          = append_module_names tree (modules_avail_module_names self)"
    using assms by (simp add: get_modules_file_tree_ok)
  then have a: "modules_avail_module_names (fst (snd (get_modules_file_tree http self w)))
           = modules_avail_module_names self
             @ map (\<lambda>f. py_slice (path f) 9 (- 8)) (filter is_module_main tree)"
    by (simp only: append_module_names_eq)
  show ?thesis
    unfolding flt using a module_path_long module_path_short by simp
qed

theorem get_modules_file_tree_names_witness:
  "example_http 200 (TreeJson False ''h'' example_tree) (tree_api_url (modules_repo example_self))
     = \<lparr>status_code = 200, json = TreeJson False ''h'' example_tree\<rparr>
   \<and> modules_avail_module_names example_self = []
   \<and> modules_avail_module_names
       (fst (snd (get_modules_file_tree (example_http 200 (TreeJson False ''h'' example_tree))
                    example_self example_world)))
     = [''fastqc'']"
proof -
  have h: "example_http 200 (TreeJson False ''h'' example_tree)
             (tree_api_url (modules_repo example_self))
           = \<lparr>status_code = 200, json = TreeJson False ''h'' example_tree\<rparr>"
    by (rule example_http_tree)
  have e: "modules_avail_module_names example_self = []"
    by (simp add: example_self_def PipelineModules_init_def)
  from get_modules_file_tree_names
         [of "example_http 200 (TreeJson False ''h'' example_tree)" example_self "''h''"
             example_tree example_world]
       h e
  have "modules_avail_module_names
       (fst (snd (get_modules_file_tree (example_http 200 (TreeJson False ''h'' example_tree))
                    example_self example_world)))
     = map (\<lambda>f. py_slice (path f) 9 (- 8))
         (filter (\<lambda>f. startswith (path f) ''software/'' \<and> endswith (path f) ''/main.nf''
                      \<and> \<not> contains (path f) ''/test/'') example_tree)"
    by blast
  with h e show ?thesis by (simp only: example_names simp_thms)
qed

lemma example_requests: "requests example_world = []"
  by (simp add: example_world_def)

lemma example_repo_self: "modules_repo example_self = example_repo"
  by (simp add: example_self_def PipelineModules_init_def)

text \<open>
  Claim C7. A 404 from the tree endpoint raises \<open>SystemExit\<close> with status 1 (the process
  ends); any other status but 200 raises \<open>SystemError\<close>; a 200 response whose body has
  \<open>truncated\<close> true fails the assertion; in each of these cases the object is left as it
  was. A 200 response with \<open>truncated\<close> false returns and updates the three fields, and
  the object changes in no other case.
\<close>

theorem get_modules_file_tree_failures:
  "(status_code (http (tree_api_url (modules_repo self))) = 404 \<longrightarrow>
      get_modules_file_tree http self w
        = (Inl (SystemExit 1), self,
           w\<lparr>requests := requests w @ [tree_api_url (modules_repo self)]\<rparr>))
   \<and> (status_code (http (tree_api_url (modules_repo self))) \<noteq> 404
        \<and> status_code (http (tree_api_url (modules_repo self))) \<noteq> 200 \<longrightarrow>
      get_modules_file_tree http self w
        = (Inl (SystemError (status_code (http (tree_api_url (modules_repo self))))), self,
           w\<lparr>requests := requests w @ [tree_api_url (modules_repo self)]\<rparr>))
   \<and> (status_code (http (tree_api_url (modules_repo self))) = 200
        \<and> json (http (tree_api_url (modules_repo self))) = TreeJson True tree_sha tree \<longrightarrow>
      get_modules_file_tree http self w
        = (Inl AssertionError, self,
           w\<lparr>requests := requests w @ [tree_api_url (modules_repo self)]\<rparr>))
   \<and> (status_code (http (tree_api_url (modules_repo self))) = 200
        \<and> json (http (tree_api_url (modules_repo self))) = TreeJson False tree_sha tree \<longrightarrow>
      get_modules_file_tree http self w
        = (Inr (),
           self\<lparr>modules_current_hash := Some tree_sha, modules_file_tree := tree,
                modules_avail_module_names :=
                  append_module_names tree (modules_avail_module_names self)\<rparr>,
           w\<lparr>requests := requests w @ [tree_api_url (modules_repo self)]\<rparr>))
   \<and> (fst (snd (get_modules_file_tree http self w)) \<noteq> self \<longrightarrow>
        fst (get_modules_file_tree http self w) = Inr ()
        \<and> status_code (http (tree_api_url (modules_repo self))) = 200
        \<and> (\<exists>h t. json (http (tree_api_url (modules_repo self))) = TreeJson False h t))"
  by (auto simp: get_modules_file_tree_def requests_get_def Let_def
           split: json_body.splits if_splits)

theorem get_modules_file_tree_failures_witness:
  "get_modules_file_tree (example_http 404 OtherJson) example_self example_world
     = (Inl (SystemExit 1), example_self,
        example_world\<lparr>requests := [tree_api_url example_repo]\<rparr>)
   \<and> get_modules_file_tree (example_http 500 OtherJson) example_self example_world
     = (Inl (SystemError 500), example_self,
        example_world\<lparr>requests := [tree_api_url example_repo]\<rparr>)
   \<and> get_modules_file_tree (example_http 200 (TreeJson True ''h'' example_tree))
         example_self example_world
     = (Inl AssertionError, example_self,
        example_world\<lparr>requests := [tree_api_url example_repo]\<rparr>)
   \<and> get_modules_file_tree (example_http 200 (TreeJson False ''h'' example_tree))
         example_self example_world
     = (Inr (),
        example_self\<lparr>modules_current_hash := Some ''h'', modules_file_tree := example_tree,
                     modules_avail_module_names :=
                       append_module_names example_tree
                         (modules_avail_module_names example_self)\<rparr>,
        example_world\<lparr>requests := [tree_api_url example_repo]\<rparr>)"
proof -
  note t = get_modules_file_tree_failures [where self = example_self and w = example_world]
  let ?u = "tree_api_url (modules_repo example_self)"
  let ?w = "example_world\<lparr>requests := requests example_world @ [?u]\<rparr>"
  have w: "?w = example_world\<lparr>requests := [tree_api_url example_repo]\<rparr>"
    by (simp only: example_requests example_repo_self append_Nil)
  have "status_code (example_http 404 OtherJson ?u) = 404"
    by (simp add: example_http_tree)
  with t [of "example_http 404 OtherJson"]
  have a: "get_modules_file_tree (example_http 404 OtherJson) example_self example_world
     = (Inl (SystemExit 1), example_self, ?w)"
    by blast
  have "status_code (example_http 500 OtherJson ?u) = 500"
    by (simp add: example_http_tree)
  then have "status_code (example_http 500 OtherJson ?u) \<noteq> 404
      \<and> status_code (example_http 500 OtherJson ?u) \<noteq> 200
      \<and> SystemError (status_code (example_http 500 OtherJson ?u)) = SystemError 500"
    by simp
  with t [of "example_http 500 OtherJson"]
  have b: "get_modules_file_tree (example_http 500 OtherJson) example_self example_world
     = (Inl (SystemError 500), example_self, ?w)"
    by metis
  have "status_code (example_http 200 (TreeJson True ''h'' example_tree) ?u) = 200
      \<and> json (example_http 200 (TreeJson True ''h'' example_tree) ?u)
          = TreeJson True ''h'' example_tree"
    by (simp add: example_http_tree)
  with t [of "example_http 200 (TreeJson True ''h'' example_tree)" "''h''" example_tree]
  have c: "get_modules_file_tree (example_http 200 (TreeJson True ''h'' example_tree))
         example_self example_world
     = (Inl AssertionError, example_self, ?w)"
    by blast
  have "status_code (example_http 200 (TreeJson False ''h'' example_tree) ?u) = 200
      \<and> json (example_http 200 (TreeJson False ''h'' example_tree) ?u)
          = TreeJson False ''h'' example_tree"
    by (simp add: example_http_tree)
  with t [of "example_http 200 (TreeJson False ''h'' example_tree)" "''h''" example_tree]
  have d: "get_modules_file_tree (example_http 200 (TreeJson False ''h'' example_tree))
         example_self example_world
     = (Inr (),
        example_self\<lparr>modules_current_hash := Some ''h'', modules_file_tree := example_tree,
                     modules_avail_module_names :=
                       append_module_names example_tree
                         (modules_avail_module_names example_self)\<rparr>, ?w)"
    by blast
  from a b c d show ?thesis unfolding w by (simp only: simp_thms)
qed

text \<open>
  A second call with the same successful response overwrites the file tree and the
  hash with the same values, and appends the derived names once more.
\<close>

lemma get_modules_file_tree_twice:
  assumes "http (tree_api_url (modules_repo self))
             = \<lparr>status_code = 200, json = TreeJson False tree_sha tree\<rparr>"
  shows "get_modules_file_tree http
           (fst (snd (get_modules_file_tree http self w)))
           (snd (snd (get_modules_file_tree http self w)))
         = (Inr (),
            (fst (snd (get_modules_file_tree http self w)))
              \<lparr>modules_avail_module_names :=
                 modules_avail_module_names (fst (snd (get_modules_file_tree http self w)))
                 @ map (\<lambda>f. py_slice (path f) 9 (- 8)) (filter is_module_main tree)\<rparr>,
            (snd (snd (get_modules_file_tree http self w)))
              \<lparr>requests := requests w @ [tree_api_url (modules_repo self),
                                          tree_api_url (modules_repo self)]\<rparr>)"
  using assms by (simp add: get_modules_file_tree_ok append_module_names_eq)

text \<open>
  Claim C2. Two calls in succession with the same successful response do not leave the
  list of names as one call does: on the example, one call gives \<open>[fastqc]\<close> and two
  calls give \<open>[fastqc, fastqc]\<close>.
\<close>

theorem get_modules_file_tree_not_idempotent:
  "modules_avail_module_names
     (fst (snd (get_modules_file_tree (example_http 200 (TreeJson False ''h'' example_tree))
                  example_self example_world)))
     = [''fastqc'']
   \<and> modules_avail_module_names
     (fst (snd (get_modules_file_tree (example_http 200 (TreeJson False ''h'' example_tree))
        (fst (snd (get_modules_file_tree (example_http 200 (TreeJson False ''h'' example_tree))
                     example_self example_world)))
        (snd (snd (get_modules_file_tree (example_http 200 (TreeJson False ''h'' example_tree))
                     example_self example_world))))))
     = [''fastqc'', ''fastqc'']"
proof -
  have e: "modules_avail_module_names example_self = []"
    by (simp add: example_self_def PipelineModules_init_def)
  have n: "map (\<lambda>f. py_slice (path f) 9 (- 8)) (filter is_module_main example_tree) = [''fastqc'']"
    using example_names by (simp add: is_module_main_def [abs_def])
  have h: "example_http 200 (TreeJson False ''h'' example_tree)
             (tree_api_url (modules_repo example_self))
           = \<lparr>status_code = 200, json = TreeJson False ''h'' example_tree\<rparr>"
    by (rule example_http_tree)
  note one = get_modules_file_tree_ok
    [where http = "example_http 200 (TreeJson False ''h'' example_tree)"
       and self = example_self and w = example_world, OF h]
  note two = get_modules_file_tree_twice
    [where http = "example_http 200 (TreeJson False ''h'' example_tree)"
       and self = example_self and w = example_world, OF h]
  show ?thesis
    unfolding two by (simp add: one append_module_names_eq n e)
qed

section \<open>Properties of \<open>get_module_file_urls\<close>\<close>

text \<open>Assignment to a key of the dictionary, and the loop that builds the result.\<close>

lemma dict_setitem_map_of: "map_of (dict_setitem d k v) = (map_of d)(k \<mapsto> v)"
  by (induction d k v rule: dict_setitem.induct) (auto simp: fun_eq_iff)

lemma dict_setitem_keys: "fst ` set (dict_setitem d k v) = insert k (fst ` set d)"
  by (induction d k v rule: dict_setitem.induct) auto

lemma dict_setitem_distinct:
  "distinct (map fst d) \<Longrightarrow> distinct (map fst (dict_setitem d k v))"
proof (induction d k v rule: dict_setitem.induct)
  case (1 k v)
  show ?case by simp
next
  case (2 k' v' d k v)
  show ?case
  proof (cases "k' = k")
    case True
    with "2.prems" show ?thesis by simp
  next
    case False
    from "2.prems" have "distinct (map fst d)" and "k' \<notin> fst ` set d" by simp_all
    with False "2.IH" have "distinct (map fst (dict_setitem d k v))"
      and "k' \<notin> fst ` set (dict_setitem d k v)"
      by (simp_all add: dict_setitem_keys)
    with False show ?thesis by simp
  qed
qed

lemma collect_file_urls_keys:
  "fst ` set (collect_file_urls m tree res)
     = fst ` set res \<union> path ` {f \<in> set tree. is_module_blob m f}"
  by (induction tree arbitrary: res) (auto simp: dict_setitem_keys)

lemma collect_file_urls_distinct:
  "distinct (map fst res) \<Longrightarrow> distinct (map fst (collect_file_urls m tree res))"
  by (induction tree arbitrary: res) (simp_all add: dict_setitem_distinct)

lemma collect_file_urls_sound:
  "map_of (collect_file_urls m tree res) p = Some u \<Longrightarrow>
     map_of res p = Some u \<or> (\<exists>f \<in> set tree. is_module_blob m f \<and> path f = p \<and> url f = u)"
proof (induction tree arbitrary: res)
  case Nil
  then show ?case by simp
next
  case (Cons g tree)
  show ?case
  proof (cases "is_module_blob m g")
    case True
    with Cons.prems have "map_of (collect_file_urls m tree (dict_setitem res (path g) (url g))) p = Some u"
      by simp
    from Cons.IH [OF this]
    have "map_of (dict_setitem res (path g) (url g)) p = Some u
          \<or> (\<exists>f \<in> set tree. is_module_blob m f \<and> path f = p \<and> url f = u)" .
    with True show ?thesis
      by (auto simp: dict_setitem_map_of split: if_splits)
  next
    case False
    with Cons.prems have "map_of (collect_file_urls m tree res) p = Some u" by simp
    from Cons.IH [OF this] show ?thesis by auto
  qed
qed

lemma collect_file_urls_other:
  "p \<notin> path ` {f \<in> set tree. is_module_blob m f} \<Longrightarrow>
     map_of (collect_file_urls m tree res) p = map_of res p"
proof (induction tree arbitrary: res)
  case Nil
  show ?case by simp
next
  case (Cons g tree)
  from Cons.prems have rest: "p \<notin> path ` {f \<in> set tree. is_module_blob m f}" by auto
  show ?case
  proof (cases "is_module_blob m g")
    case True
    with Cons.prems have "p \<noteq> path g" by auto
    with True Cons.IH [OF rest] show ?thesis by (simp add: dict_setitem_map_of)
  next
    case False
    with Cons.IH [OF rest] show ?thesis by simp
  qed
qed

lemma collect_file_urls_complete:
  "distinct (map path tree) \<Longrightarrow> f \<in> set tree \<Longrightarrow> is_module_blob m f \<Longrightarrow>
     map_of (collect_file_urls m tree res) (path f) = Some (url f)"
proof (induction tree arbitrary: res)
  case Nil
  then show ?case by simp
next
  case (Cons g tree)
  show ?case
  proof (cases "f = g")
    case True
    from Cons.prems(1) have "path g \<notin> path ` set tree" by simp
    then have "path g \<notin> path ` {f \<in> set tree. is_module_blob m f}" by auto
    from collect_file_urls_other [OF this]
    have "map_of (collect_file_urls m tree (dict_setitem res (path g) (url g))) (path g)
            = map_of (dict_setitem res (path g) (url g)) (path g)" .
    with True Cons.prems(3) show ?thesis by (simp add: dict_setitem_map_of)
  next
    case False
    with Cons.prems have "f \<in> set tree" "distinct (map path tree)" by simp_all
    with Cons.IH Cons.prems(3) show ?thesis by simp
  qed
qed

lemma startswith_prefix: "startswith s (p @ q) \<Longrightarrow> startswith s p"
  by (auto simp: startswith_iff)

lemma example_file_urls:
  "get_module_file_urls ''fastqc'' example_fetched example_world
     = (Inr [(''software/fastqc/main.nf'', ''u1''), (''software/fastqc/test/main.nf'', ''u2''),
             (''software/fastqc/meta.yml'', ''u3'')],
        example_fetched, example_world)"
  by (simp add: get_module_file_urls_def example_fetched_def example_tree_def
        is_module_blob_def startswith_def)


lemma example_fetched_tree: "modules_file_tree example_fetched = example_tree"
  by (simp add: example_fetched_def)

lemma example_tree_distinct: "distinct (map path example_tree)"
  by (simp add: example_tree_def)

text \<open>
  Claim C4. \<open>get_module_file_urls\<close> returns a dictionary whose keys are exactly the paths
  of the entries of the file tree whose path starts with \<open>software/\<close> followed by the
  module name and whose type is \<open>blob\<close>; every value is the url of such an entry with
  that path, and when the paths of the tree are distinct (as in a git tree) every such
  entry's path is mapped to its url. Entries of another type are left out, and the test
  has no \<open>/test/\<close> exclusion.
\<close>

theorem get_module_file_urls_mapping:
  "\<exists>files. fst (get_module_file_urls module self w) = Inr files
     \<and> distinct (map fst files)
     \<and> fst ` set files
         = path ` {f \<in> set (modules_file_tree self).
                     startswith (path f) (''software/'' @ module) \<and> type f = ''blob''}
     \<and> (\<forall>p u. map_of files p = Some u \<longrightarrow>
           (\<exists>f \<in> set (modules_file_tree self).
               startswith (path f) (''software/'' @ module) \<and> type f = ''blob''
               \<and> path f = p \<and> url f = u))
     \<and> (distinct (map path (modules_file_tree self)) \<longrightarrow>
           (\<forall>f \<in> set (modules_file_tree self).
               startswith (path f) (''software/'' @ module) \<and> type f = ''blob'' \<longrightarrow>
               map_of files (path f) = Some (url f)))"
proof -
  let ?files = "collect_file_urls module (modules_file_tree self) []"
  have r: "fst (get_module_file_urls module self w) = Inr ?files"
    by (simp add: get_module_file_urls_def)
  have d: "distinct (map fst ?files)"
    by (rule collect_file_urls_distinct) simp
  have k: "fst ` set ?files
         = path ` {f \<in> set (modules_file_tree self).
                     startswith (path f) (''software/'' @ module) \<and> type f = ''blob''}"
    by (simp add: collect_file_urls_keys is_module_blob_def)
  have s: "\<forall>p u. map_of ?files p = Some u \<longrightarrow>
           (\<exists>f \<in> set (modules_file_tree self).
               startswith (path f) (''software/'' @ module) \<and> type f = ''blob''
               \<and> path f = p \<and> url f = u)"
    using collect_file_urls_sound [of module "modules_file_tree self" "[]"]
    by (simp add: is_module_blob_def)
  have c: "distinct (map path (modules_file_tree self)) \<longrightarrow>
           (\<forall>f \<in> set (modules_file_tree self).
               startswith (path f) (''software/'' @ module) \<and> type f = ''blob'' \<longrightarrow>
               map_of ?files (path f) = Some (url f))"
    using collect_file_urls_complete [of "modules_file_tree self" _ module "[]"]
    by (simp add: is_module_blob_def)
  from r d k s c show ?thesis by blast
qed

theorem get_module_file_urls_mapping_witness:
  "distinct (map path (modules_file_tree example_fetched))
   \<and> fst (get_module_file_urls ''fastqc'' example_fetched example_world)
       = Inr [(''software/fastqc/main.nf'', ''u1''), (''software/fastqc/test/main.nf'', ''u2''),
              (''software/fastqc/meta.yml'', ''u3'')]
   \<and> map_of [(''software/fastqc/main.nf'', ''u1''), (''software/fastqc/test/main.nf'', ''u2''),
              (''software/fastqc/meta.yml'', ''u3'')] ''software/fastqc/test/main.nf''
       = Some ''u2''"
proof -
  let ?f = "\<lparr>path = ''software/fastqc/test/main.nf'', type = ''blob'', url = ''u2'',
             sha = ''s3''\<rparr>"
  let ?files = "[(''software/fastqc/main.nf'', ''u1''), (''software/fastqc/test/main.nf'', ''u2''),
              (''software/fastqc/meta.yml'', ''u3'')]"
  have d: "distinct (map path (modules_file_tree example_fetched))"
    by (simp only: example_fetched_tree example_tree_distinct)
  have m: "?f \<in> set (modules_file_tree example_fetched)"
    by (simp add: example_fetched_tree example_tree_def)
  have p: "startswith (path ?f) (''software/'' @ ''fastqc'') \<and> type ?f = ''blob''"
    by (simp add: startswith_def)
  have r: "fst (get_module_file_urls ''fastqc'' example_fetched example_world) = Inr ?files"
    by (simp add: example_file_urls)
  from get_module_file_urls_mapping [of "''fastqc''" example_fetched example_world]
  obtain files where f1: "fst (get_module_file_urls ''fastqc'' example_fetched example_world)
        = Inr files"
    and f2: "distinct (map path (modules_file_tree example_fetched)) \<longrightarrow>
           (\<forall>f \<in> set (modules_file_tree example_fetched).
               startswith (path f) (''software/'' @ ''fastqc'') \<and> type f = ''blob'' \<longrightarrow>
               map_of files (path f) = Some (url f))"
    by blast
  from f1 r have "files = ?files" by simp
  moreover from f2 d m p have "map_of files (path ?f) = Some (url ?f)" by blast
  ultimately have "map_of ?files (path ?f) = Some (url ?f)" by simp
  then have "map_of ?files ''software/fastqc/test/main.nf'' = Some ''u2''" by simp
  with d r show ?thesis by (simp only: simp_thms)
qed

text \<open>
  Claim C9. The prefix test is a plain string prefix: a blob entry of the file tree whose
  path starts with \<open>software/foobar/\<close> is a key of the result for the module \<open>foo\<close>.
\<close>

theorem get_module_file_urls_plain_prefix:
  assumes "f \<in> set (modules_file_tree self)" "type f = ''blob''"
    "startswith (path f) ''software/foobar/''"
  shows "\<exists>files. fst (get_module_file_urls ''foo'' self w) = Inr files
           \<and> map_of files (path f) \<noteq> None"
proof -
  have "startswith (path f) (''software/foo'' @ ''bar/'')" using assms(3) by simp
  then have "startswith (path f) ''software/foo''" by (rule startswith_prefix)
  with assms(1,2)
  have "path f \<in> path ` {f \<in> set (modules_file_tree self). is_module_blob ''foo'' f}"
    by (auto simp: is_module_blob_def)
  then have "path f \<in> fst ` set (collect_file_urls ''foo'' (modules_file_tree self) [])"
    by (simp add: collect_file_urls_keys)
  then have "map_of (collect_file_urls ''foo'' (modules_file_tree self) []) (path f) \<noteq> None"
    by (simp add: map_of_eq_None_iff)
  then show ?thesis by (simp add: get_module_file_urls_def)
qed

theorem get_module_file_urls_plain_prefix_witness:
  "example_foobar \<in> set (modules_file_tree (example_self\<lparr>modules_file_tree := [example_foobar]\<rparr>))
   \<and> type example_foobar = ''blob''
   \<and> startswith (path example_foobar) ''software/foobar/''
   \<and> fst (get_module_file_urls ''foo'' (example_self\<lparr>modules_file_tree := [example_foobar]\<rparr>)
            example_world)
       = Inr [(''software/foobar/main.nf'', ''u5'')]
   \<and> (\<exists>files. fst (get_module_file_urls ''foo''
                      (example_self\<lparr>modules_file_tree := [example_foobar]\<rparr>) example_world)
                 = Inr files
          \<and> map_of files (path example_foobar) \<noteq> None)"
proof -
  let ?self = "example_self\<lparr>modules_file_tree := [example_foobar]\<rparr>"
  have a: "example_foobar \<in> set (modules_file_tree ?self)" by simp
  have b: "type example_foobar = ''blob''" by (simp add: example_foobar_def)
  have c: "startswith (path example_foobar) ''software/foobar/''"
    by (simp add: example_foobar_def startswith_def)
  have d: "fst (get_module_file_urls ''foo'' ?self example_world)
       = Inr [(''software/foobar/main.nf'', ''u5'')]"
    by (simp add: get_module_file_urls_def example_foobar_def is_module_blob_def startswith_def)
  from get_module_file_urls_plain_prefix [OF a b c, of example_world] a b c d
  show ?thesis by (simp only: simp_thms)
qed

text \<open>
  Claim C10. \<open>get_module_file_urls\<close> leaves the object and the world (file system and
  request log) as they were, and its result depends on the file tree and the module
  name only.
\<close>

theorem get_module_file_urls_pure:
  "snd (get_module_file_urls module self w) = (self, w)
   \<and> (\<forall>self' w'. modules_file_tree self' = modules_file_tree self \<longrightarrow>
          fst (get_module_file_urls module self' w') = fst (get_module_file_urls module self w))"
  by (simp add: get_module_file_urls_def)

theorem get_module_file_urls_pure_witness:
  "modules_file_tree (example_fetched\<lparr>pipeline_dir := ''/other'',
                        modules_avail_module_names := []\<rparr>)
     = modules_file_tree example_fetched
   \<and> fst (get_module_file_urls ''fastqc''
            (example_fetched\<lparr>pipeline_dir := ''/other'', modules_avail_module_names := []\<rparr>)
            (example_world\<lparr>requests := [''q'']\<rparr>))
     = fst (get_module_file_urls ''fastqc'' example_fetched example_world)
   \<and> snd (get_module_file_urls ''fastqc'' example_fetched example_world)
     = (example_fetched, example_world)"
proof -
  have a: "modules_file_tree (example_fetched\<lparr>pipeline_dir := ''/other'',
                        modules_avail_module_names := []\<rparr>)
     = modules_file_tree example_fetched"
    by simp
  from get_module_file_urls_pure [of "''fastqc''" example_fetched example_world] a
  show ?thesis by blast
qed

section \<open>Base64: decoding an encoding\<close>

text \<open>
  The alphabet has 64 distinct characters, none of them the padding character, so the
  decoding table inverts the encoding table. Four characters of an encoding decode to
  the three bytes they encode, and the two padded endings to one and two bytes.
\<close>

lemma index_of_nth: "distinct xs \<Longrightarrow> i < length xs \<Longrightarrow> index_of (xs ! i) xs = Some i"
proof (induction xs arbitrary: i)
  case Nil
  then show ?case by simp
next
  case (Cons x xs)
  show ?case
  proof (cases i)
    case 0
    then show ?thesis by simp
  next
    case (Suc j)
    with Cons.prems have "xs ! j \<in> set xs" "x \<notin> set xs" by auto
    then have "x \<noteq> xs ! j" by auto
    with Suc Cons show ?thesis by simp
  qed
qed

lemma b64_alphabet_length: "length b64_alphabet = 64"
  by (simp add: b64_alphabet_def)

lemma b64_alphabet_distinct: "distinct b64_alphabet"
  by (simp add: b64_alphabet_def)

lemma table_roundtrip: "i < 64 \<Longrightarrow> table_a2b (table_b2a i) = Some i"
  by (simp add: table_a2b_def table_b2a_def index_of_nth b64_alphabet_distinct b64_alphabet_length)

lemma table_b2a_in: "i < 64 \<Longrightarrow> table_b2a i \<in> set b64_alphabet"
  by (simp add: table_b2a_def b64_alphabet_length)

lemma b64_alphabet_no_pad: "CHR ''='' \<notin> set b64_alphabet"
  by (simp add: b64_alphabet_def)

lemma table_b2a_no_pad: "i < 64 \<Longrightarrow> table_b2a i \<noteq> CHR ''=''"
  using table_b2a_in b64_alphabet_no_pad by metis

lemma b64_alphabet_ascii: "c \<in> set b64_alphabet \<Longrightarrow> (of_char c :: nat) < 128"
  by (auto simp: b64_alphabet_def)

lemma byte_lt: "unat (a :: byte) < 256"
  using unsigned_less [of a, where ?'a = nat] by simp

lemma sx1: "(x::nat) < 256 \<Longrightarrow> x div 4 < 64" by simp
lemma sx2: "(x::nat) mod 4 * 16 < 64" 
proof - have "x mod 4 < 4" by simp then show ?thesis by linarith qed
lemma sx3: "(y::nat) < 256 \<Longrightarrow> x mod 4 * 16 + y div 16 < 64"
proof - assume "y < 256" then have "y div 16 < 16" by simp
  moreover have "x mod 4 < 4" by simp ultimately show ?thesis by linarith qed
lemma sx4: "(y::nat) mod 16 * 4 < 64"
proof - have "y mod 16 < 16" by simp then show ?thesis by linarith qed
lemma sx5: "(z::nat) < 256 \<Longrightarrow> y mod 16 * 4 + z div 64 < 64"
proof - assume "z < 256" then have "z div 64 < 4" by simp
  moreover have "y mod 16 < 16" by simp ultimately show ?thesis by linarith qed

lemma dv1: "(y::nat) < 256 \<Longrightarrow> (x mod 4 * 16 + y div 16) div 16 = x mod 4"
  by simp
lemma dv2: "(y::nat) < 256 \<Longrightarrow> (x mod 4 * 16 + y div 16) mod 16 = y div 16"
  by simp
lemma dv3: "(z::nat) < 256 \<Longrightarrow> (y mod 16 * 4 + z div 64) div 4 = y mod 16"
  by simp
lemma dv4: "(z::nat) < 256 \<Longrightarrow> (y mod 16 * 4 + z div 64) mod 4 = z div 64"
  by simp
lemma rc1: "(x::nat) div 4 * 4 + x mod 4 = x" by simp
lemma rc2: "(y::nat) div 16 * 16 + y mod 16 = y" by simp
lemma rc3: "(z::nat) div 64 * 64 + z mod 64 = z" by simp


lemma bt1: "(y::nat) < 256 \<Longrightarrow> x div 4 * 4 + (x mod 4 * 16 + y div 16) div 16 = x"
  by (simp only: dv1 rc1)
lemma bt2: "(y::nat) < 256 \<Longrightarrow> z < 256 \<Longrightarrow>
    (x mod 4 * 16 + y div 16) mod 16 * 16 + (y mod 16 * 4 + z div 64) div 4 = y"
  by (simp only: dv2 dv3 rc2)
lemma bt3: "(z::nat) < 256 \<Longrightarrow> (y mod 16 * 4 + z div 64) mod 4 * 64 + z mod 64 = z"
  by (simp only: dv4 rc3)
lemma bt1': "(x::nat) div 4 * 4 + x mod 4 * 16 div 16 = x"
  by simp
lemma bt2': "(y::nat) < 256 \<Longrightarrow>
    (x mod 4 * 16 + y div 16) mod 16 * 16 + y mod 16 * 4 div 4 = y"
  using dv2 [of y x] by simp

lemma step0: "i < 64 \<Longrightarrow> a2b_base64 (table_b2a i # cs) 0 lc pads out = a2b_base64 cs (Suc 0) i 0 out"
  by (simp add: table_roundtrip table_b2a_no_pad)
lemma step1: "i < 64 \<Longrightarrow> a2b_base64 (table_b2a i # cs) (Suc 0) lc pads out
   = a2b_base64 cs 2 (i mod 16) 0 (out @ [of_nat (lc * 4 + i div 16)])"
  by (simp add: table_roundtrip table_b2a_no_pad)
lemma step2: "i < 64 \<Longrightarrow> a2b_base64 (table_b2a i # cs) 2 lc pads out
   = a2b_base64 cs 3 (i mod 4) 0 (out @ [of_nat (lc * 16 + i div 4)])"
  by (simp add: table_roundtrip table_b2a_no_pad)
lemma step3: "i < 64 \<Longrightarrow> a2b_base64 (table_b2a i # cs) 3 lc pads out
   = a2b_base64 cs 0 0 0 (out @ [of_nat (lc * 64 + i)])"
  by (simp add: table_roundtrip table_b2a_no_pad)
lemma pad2: "a2b_base64 (CHR ''='' # CHR ''='' # cs) 2 lc 0 out = Inr out"
  by simp
lemma pad3: "a2b_base64 (CHR ''='' # cs) 3 lc 0 out = Inr out"
  by simp

lemma a2b_quad:
  assumes "s1 < 64" "s2 < 64" "s3 < 64" "s4 < 64"
  shows "a2b_base64 (table_b2a s1 # table_b2a s2 # table_b2a s3 # table_b2a s4 # cs) 0 lc pads out
       = a2b_base64 cs 0 0 0
           (out @ [of_nat (s1 * 4 + s2 div 16), of_nat (s2 mod 16 * 16 + s3 div 4),
                   of_nat (s3 mod 4 * 64 + s4)])"
  using assms by (simp add: step0 step1 step2 step3 del: a2b_base64.simps(2))

lemma a2b_triple:
  assumes "s1 < 64" "s2 < 64" "s3 < 64"
  shows "a2b_base64 [table_b2a s1, table_b2a s2, table_b2a s3, CHR ''=''] 0 lc pads out
       = Inr (out @ [of_nat (s1 * 4 + s2 div 16), of_nat (s2 mod 16 * 16 + s3 div 4)])"
  using assms by (simp add: step0 step1 step2 pad3 del: a2b_base64.simps(2))

lemma a2b_pair:
  assumes "s1 < 64" "s2 < 64"
  shows "a2b_base64 [table_b2a s1, table_b2a s2, CHR ''='', CHR ''=''] 0 lc pads out
       = Inr (out @ [of_nat (s1 * 4 + s2 div 16)])"
  using assms by (simp add: step0 step1 pad2 del: a2b_base64.simps(2))

lemma byte_of_unat: "word_of_nat (unat a) = (a::byte)"
  by simp

lemma wb1: "word_of_nat (unat a div 4 * 4 + (unat a mod 4 * 16 + unat (b::byte) div 16) div 16) = (a::byte)"
  by (simp only: bt1 [OF byte_lt] byte_of_unat)
lemma wb2: "word_of_nat ((unat (a::byte) mod 4 * 16 + unat b div 16) mod 16 * 16
      + (unat b mod 16 * 4 + unat (c::byte) div 64) div 4) = (b::byte)"
  by (simp only: bt2 [OF byte_lt byte_lt] byte_of_unat)
lemma wb3: "word_of_nat ((unat (b::byte) mod 16 * 4 + unat c div 64) mod 4 * 64 + unat c mod 64) = (c::byte)"
  by (simp only: bt3 [OF byte_lt] byte_of_unat)
lemma wb1': "word_of_nat (unat a div 4 * 4 + unat a mod 4 * 16 div 16) = (a::byte)"
  by (simp only: bt1' byte_of_unat)
lemma wb2': "word_of_nat ((unat (a::byte) mod 4 * 16 + unat b div 16) mod 16 * 16
      + unat b mod 16 * 4 div 4) = (b::byte)"
  by (simp only: bt2' [OF byte_lt] byte_of_unat)

lemma a2b_b64encode: "a2b_base64 (b64encode bs) 0 0 0 out = Inr (out @ bs)"
proof (induction bs arbitrary: out rule: b64encode.induct)
  case 1
  show ?case by simp
next
  case (2 a)
  have "a2b_base64 (b64encode [a]) 0 0 0 out
      = Inr (out @ [of_nat (unat a div 4 * 4 + unat a mod 4 * 16 div 16)])"
    unfolding b64encode.simps by (rule a2b_pair) (rule sx1 [OF byte_lt] sx2)+
  then show ?case by (simp only: wb1')
next
  case (3 a b)
  have "a2b_base64 (b64encode [a, b]) 0 0 0 out
      = Inr (out @ [of_nat (unat a div 4 * 4 + (unat a mod 4 * 16 + unat b div 16) div 16),
                    of_nat ((unat a mod 4 * 16 + unat b div 16) mod 16 * 16
                            + unat b mod 16 * 4 div 4)])"
    unfolding b64encode.simps
    by (rule a2b_triple) (rule sx1 [OF byte_lt] sx3 [OF byte_lt] sx4)+
  then show ?case by (simp only: wb1 wb2')
next
  case (4 a b c rest)
  have "a2b_base64 (b64encode (a # b # c # rest)) 0 0 0 out
      = a2b_base64 (b64encode rest) 0 0 0
          (out @ [of_nat (unat a div 4 * 4 + (unat a mod 4 * 16 + unat b div 16) div 16),
                  of_nat ((unat a mod 4 * 16 + unat b div 16) mod 16 * 16
                          + (unat b mod 16 * 4 + unat c div 64) div 4),
                  of_nat ((unat b mod 16 * 4 + unat c div 64) mod 4 * 64 + unat c mod 64)])"
    unfolding b64encode.simps append_Cons append_Nil
    by (rule a2b_quad) (rule sx1 [OF byte_lt] sx3 [OF byte_lt] sx5 [OF byte_lt] mod_less_divisor, simp?)+
  also have "\<dots> = a2b_base64 (b64encode rest) 0 0 0 (out @ [a, b, c])"
    by (simp only: wb1 wb2 wb3)
  also have "\<dots> = Inr ((out @ [a, b, c]) @ rest)"
    by (rule "4.IH")
  finally show ?case by simp
qed

lemma b64encode_ascii: "list_all (\<lambda>c. (of_char c :: nat) < 128) (b64encode bs)"
  by (induction bs rule: b64encode.induct)
     (simp_all add: b64_alphabet_ascii table_b2a_in sx1 sx2 sx3 sx4 sx5 byte_lt)

lemma b64decode_b64encode: "b64decode (b64encode bs) = Inr bs"
  using a2b_b64encode [of bs "[]"] by (simp add: b64decode_def b64encode_ascii)

section \<open>Properties of the file system calls\<close>

lemma os_mkdir_Inr:
  "os_mkdir s nm = Inr s1 \<Longrightarrow> s1 = s\<lparr>dirs := insert nm (dirs s)\<rparr>"
  by (auto simp: os_mkdir_def split: if_splits)

lemma os_makedirs_result:
  "os_makedirs s nm = Inr s1 \<Longrightarrow>
     regular_files s1 = regular_files s \<and> dirs s \<subseteq> dirs s1
     \<and> (\<forall>n \<in> dirs s1. n \<in> dirs s \<or> length n \<le> length nm)
     \<and> (snd (makedirs_split nm) \<noteq> ''.'' \<longrightarrow> nm \<in> dirs s1)"
proof (induction s nm arbitrary: s1 rule: os_makedirs.induct)
  case (1 s nm)
  let ?h = "fst (makedirs_split nm)" and ?t = "snd (makedirs_split nm)"
  show ?case
  proof (cases "?h \<noteq> [] \<and> ?t \<noteq> [] \<and> \<not> os_path_exists s ?h")
    case False
    with "1.prems" have "os_mkdir s nm = Inr s1"
      by (subst (asm) os_makedirs.simps) (simp split: if_splits)
    from os_mkdir_Inr [OF this] show ?thesis by auto
  next
    case True
    then have len: "length ?h < length nm" by (simp add: makedirs_split_shorter)
    show ?thesis
    proof (cases "os_makedirs s ?h")
      case (Inl e)
      with True "1.prems" have "(if ?t = ''.'' then Inr s else os_mkdir s nm) = Inr s1"
        by (subst (asm) os_makedirs.simps) (simp split: if_splits)
      then show ?thesis
        by (auto split: if_splits dest!: os_mkdir_Inr)
    next
      case (Inr s2)
      from "1.IH" [OF _ Inr] True
      have ih: "regular_files s2 = regular_files s" "dirs s \<subseteq> dirs s2"
        "\<forall>n \<in> dirs s2. n \<in> dirs s \<or> length n \<le> length ?h"
        by simp_all
      from Inr True "1.prems" have r: "(if ?t = ''.'' then Inr s2 else os_mkdir s2 nm) = Inr s1"
        by (subst (asm) os_makedirs.simps) (simp split: if_splits)
      show ?thesis
      proof (cases "?t = ''.''")
        case True
        with r have "s1 = s2" by simp
        with ih len True show ?thesis by (auto intro: less_imp_le order_trans)
      next
        case False
        with r have "os_mkdir s2 nm = Inr s1" by simp
        from os_mkdir_Inr [OF this] ih len show ?thesis
          by (auto intro: less_imp_le order_trans)
      qed
    qed
  qed
qed

lemma dirname_shorter:
  assumes "snd (os_path_split nm) \<noteq> []"
  shows "length (os_path_dirname nm) < length nm"
proof -
  from assms have "0 < length (snd (os_path_split nm))" by simp
  with os_path_split_length [of nm] show ?thesis
    unfolding os_path_dirname_def by linarith
qed

lemma open_wb_write_ok:
  assumes "os_path_dirname nm \<in> dirs s" "regular_files s (os_path_dirname nm) = None"
    "nm \<notin> dirs s" "snd (os_path_split nm) \<noteq> []"
  shows "open_wb_write s nm b = Inr (s\<lparr>regular_files := (regular_files s)(nm \<mapsto> b)\<rparr>)"
proof -
  from assms(4) have "nm \<noteq> []" by (auto simp: os_path_split_def Let_def)
  with assms show ?thesis by (simp add: open_wb_write_def dir_present_def)
qed

lemma example_http_u1:
  "example_http st body ''u1'' = \<lparr>status_code = 200, json = BlobJson ''aGk=''\<rparr>"
  by (simp add: example_http_def tree_api_url_def)

lemma example_b64encode: "b64encode [104, 105] = ''aGk=''"
  by (simp add: table_b2a_def b64_alphabet_def)

lemmas path_defs = os_path_dirname_def os_path_split_def makedirs_split_def rstrip_slash_def
  all_slashes_def Let_def

lemma example_dirname_1: "os_path_dirname ''/w/f'' = ''/w''"
  by (simp add: path_defs)

lemma example_dirname_2: "os_path_dirname ''/w/m/s/f'' = ''/w/m/s''"
  by (simp add: path_defs)

lemma example_split_1: "snd (os_path_split ''/w/f'') = ''f''"
  by (simp add: path_defs)

lemma example_split_2: "snd (os_path_split ''/w/m/s/f'') = ''f''"
  by (simp add: path_defs)

lemma example_msplit_2: "makedirs_split ''/w/m/s'' = (''/w/m'', ''s'')"
  by (simp add: path_defs)

lemma example_msplit_3: "makedirs_split ''/w/m'' = (''/w'', ''m'')"
  by (simp add: path_defs)

lemma example_fs: "fs example_world = \<lparr>dirs = {''/w''}, regular_files = Map.empty\<rparr>"
  by (simp add: example_world_def)

lemma example_makedirs:
  "os_makedirs \<lparr>dirs = {''/w''}, regular_files = Map.empty\<rparr> ''/w/m/s''
     = Inr \<lparr>dirs = {''/w/m/s'', ''/w/m'', ''/w''}, regular_files = Map.empty\<rparr>"
proof -
  have 1: "os_makedirs \<lparr>dirs = {''/w''}, regular_files = Map.empty\<rparr> ''/w/m''
     = Inr \<lparr>dirs = {''/w/m'', ''/w''}, regular_files = Map.empty\<rparr>"
    by (subst os_makedirs.simps)
       (simp add: example_msplit_3 os_path_exists_def os_mkdir_def dir_present_def)
  show ?thesis
    by (subst os_makedirs.simps)
       (simp add: 1 example_msplit_2 example_msplit_3 os_path_exists_def os_mkdir_def
          dir_present_def)
qed

section \<open>Properties of \<open>download_gh_file\<close>\<close>

lemma download_gh_file_content:
  assumes "http api_url = \<lparr>status_code = 200, json = BlobJson (b64encode b)\<rparr>"
  shows "download_gh_file http dl_filename api_url self w =
     (case (if \<not> os_path_exists (fs w) (os_path_dirname dl_filename)
            then os_makedirs (fs w) (os_path_dirname dl_filename) else Inr (fs w)) of
        Inl e \<Rightarrow> (Inl e, self, w)
      | Inr s1 \<Rightarrow>
          (case open_wb_write s1 dl_filename b of
             Inl e \<Rightarrow> (Inl e, self, w\<lparr>fs := s1, requests := requests w @ [api_url]\<rparr>)
           | Inr s3 \<Rightarrow> (Inr (), self, w\<lparr>fs := s3, requests := requests w @ [api_url]\<rparr>)))"
proof -
  let ?e = "if \<not> os_path_exists (fs w) (os_path_dirname dl_filename)
            then os_makedirs (fs w) (os_path_dirname dl_filename) else Inr (fs w)"
  show ?thesis
  proof (cases ?e)
    case (Inl e)
    then show ?thesis by (simp add: download_gh_file_def Let_def del: os_makedirs.simps)
  next
    case (Inr s1)
    show ?thesis
    proof (cases "open_wb_write s1 dl_filename b")
      case (Inl e)
      with Inr assms show ?thesis
        by (simp add: download_gh_file_def requests_get_def b64decode_b64encode Let_def
              del: os_makedirs.simps)
    next
      case (Inr s3)
      with \<open>?e = Inr s1\<close> assms show ?thesis
        by (simp add: download_gh_file_def requests_get_def b64decode_b64encode Let_def
              del: os_makedirs.simps)
    qed
  qed
qed

text \<open>
  Claim C8. For every byte sequence \<open>b\<close>: decoding the base64 encoding of \<open>b\<close> gives
  \<open>b\<close>, and \<open>download_gh_file\<close>, given a 200 response whose \<open>content\<close> is that encoding,
  writes exactly \<open>b\<close> to the target path. When the parent directory exists the file is
  created or replaced there; when it does not exist it is made by \<open>os.makedirs\<close> first.
  The conditions are those under which the file system calls succeed: the parent is not
  a regular file, the target is not a directory and has a file name.
\<close>

theorem download_gh_file_writes_decoded:
  assumes "http api_url = \<lparr>status_code = 200, json = BlobJson (b64encode b)\<rparr>"
  shows "b64decode (b64encode b) = Inr b
     \<and> (os_path_dirname dl_filename \<in> dirs (fs w)
          \<and> regular_files (fs w) (os_path_dirname dl_filename) = None
          \<and> dl_filename \<notin> dirs (fs w) \<and> snd (os_path_split dl_filename) \<noteq> [] \<longrightarrow>
        download_gh_file http dl_filename api_url self w
          = (Inr (), self,
             w\<lparr>fs := (fs w)\<lparr>regular_files := (regular_files (fs w))(dl_filename \<mapsto> b)\<rparr>,
               requests := requests w @ [api_url]\<rparr>))
     \<and> (\<not> os_path_exists (fs w) (os_path_dirname dl_filename)
          \<and> os_makedirs (fs w) (os_path_dirname dl_filename) = Inr s1
          \<and> snd (makedirs_split (os_path_dirname dl_filename)) \<noteq> ''.''
          \<and> dl_filename \<notin> dirs (fs w) \<and> snd (os_path_split dl_filename) \<noteq> [] \<longrightarrow>
        download_gh_file http dl_filename api_url self w
          = (Inr (), self,
             w\<lparr>fs := s1\<lparr>regular_files := (regular_files (fs w))(dl_filename \<mapsto> b)\<rparr>,
               requests := requests w @ [api_url]\<rparr>)
        \<and> os_path_dirname dl_filename \<in> dirs s1 \<and> dirs (fs w) \<subseteq> dirs s1)"
proof -
  let ?d = "os_path_dirname dl_filename"
  note c = download_gh_file_content [of http api_url b dl_filename self w, OF assms]
  have A: "download_gh_file http dl_filename api_url self w
          = (Inr (), self,
             w\<lparr>fs := (fs w)\<lparr>regular_files := (regular_files (fs w))(dl_filename \<mapsto> b)\<rparr>,
               requests := requests w @ [api_url]\<rparr>)"
    if h: "?d \<in> dirs (fs w)" "regular_files (fs w) ?d = None" "dl_filename \<notin> dirs (fs w)"
      "snd (os_path_split dl_filename) \<noteq> []"
  proof -
    from h(1) have "os_path_exists (fs w) ?d" by (simp add: os_path_exists_def)
    with open_wb_write_ok [OF h, of b] show ?thesis unfolding c by simp
  qed
  have B: "download_gh_file http dl_filename api_url self w
          = (Inr (), self,
             w\<lparr>fs := s1\<lparr>regular_files := (regular_files (fs w))(dl_filename \<mapsto> b)\<rparr>,
               requests := requests w @ [api_url]\<rparr>)
        \<and> ?d \<in> dirs s1 \<and> dirs (fs w) \<subseteq> dirs s1"
    if h: "\<not> os_path_exists (fs w) ?d" "os_makedirs (fs w) ?d = Inr s1"
      "snd (makedirs_split ?d) \<noteq> ''.''" "dl_filename \<notin> dirs (fs w)"
      "snd (os_path_split dl_filename) \<noteq> []"
  proof -
    from os_makedirs_result [OF h(2)] h(3)
    have r: "regular_files s1 = regular_files (fs w)" "dirs (fs w) \<subseteq> dirs s1"
      "\<forall>n \<in> dirs s1. n \<in> dirs (fs w) \<or> length n \<le> length ?d" "?d \<in> dirs s1"
      by simp_all
    from h(1) have n: "regular_files s1 ?d = None" by (simp add: os_path_exists_def r(1))
    from dirname_shorter [OF h(5)] r(3) h(4) have "dl_filename \<notin> dirs s1" by auto
    from open_wb_write_ok [OF r(4) n this h(5), of b] h(1,2) r show ?thesis
      unfolding c by simp
  qed
  from A B show ?thesis by (simp only: b64decode_b64encode) blast
qed

theorem download_gh_file_writes_decoded_witness:
  "example_http 200 OtherJson ''u1''
     = \<lparr>status_code = 200, json = BlobJson (b64encode [104, 105])\<rparr>
   \<and> download_gh_file (example_http 200 OtherJson) ''/w/f'' ''u1'' example_self example_world
     = (Inr (), example_self,
        \<lparr>fs = \<lparr>dirs = {''/w''}, regular_files = [''/w/f'' \<mapsto> [104, 105]]\<rparr>,
         requests = [''u1'']\<rparr>)
   \<and> download_gh_file (example_http 200 OtherJson) ''/w/m/s/f'' ''u1'' example_self example_world
     = (Inr (), example_self,
        \<lparr>fs = \<lparr>dirs = {''/w/m/s'', ''/w/m'', ''/w''},
               regular_files = [''/w/m/s/f'' \<mapsto> [104, 105]]\<rparr>,
         requests = [''u1'']\<rparr>)"
proof -
  let ?http = "example_http 200 OtherJson"
  let ?s1 = "\<lparr>dirs = {''/w/m/s'', ''/w/m'', ''/w''}, regular_files = Map.empty\<rparr>"
  have h: "?http ''u1'' = \<lparr>status_code = 200, json = BlobJson (b64encode [104, 105])\<rparr>"
    by (simp only: example_http_u1 example_b64encode)
  note t = download_gh_file_writes_decoded
    [where http = ?http and api_url = "''u1''" and b = "[104, 105]" and self = example_self
       and w = example_world, OF h]
  have a: "os_path_dirname ''/w/f'' \<in> dirs (fs example_world)
          \<and> regular_files (fs example_world) (os_path_dirname ''/w/f'') = None
          \<and> ''/w/f'' \<notin> dirs (fs example_world) \<and> snd (os_path_split ''/w/f'') \<noteq> []"
    by (simp add: example_dirname_1 example_split_1 example_fs)
  with t [of "''/w/f''"]
  have A: "download_gh_file ?http ''/w/f'' ''u1'' example_self example_world
          = (Inr (), example_self,
             example_world\<lparr>fs := (fs example_world)\<lparr>regular_files :=
                               (regular_files (fs example_world))(''/w/f'' \<mapsto> [104, 105])\<rparr>,
               requests := requests example_world @ [''u1'']\<rparr>)"
    by blast
  have b: "\<not> os_path_exists (fs example_world) (os_path_dirname ''/w/m/s/f'')
          \<and> os_makedirs (fs example_world) (os_path_dirname ''/w/m/s/f'') = Inr ?s1
          \<and> snd (makedirs_split (os_path_dirname ''/w/m/s/f'')) \<noteq> ''.''
          \<and> ''/w/m/s/f'' \<notin> dirs (fs example_world) \<and> snd (os_path_split ''/w/m/s/f'') \<noteq> []"
    by (simp add: example_dirname_2 example_split_2 example_fs example_makedirs
          example_msplit_2 os_path_exists_def)
  with t [of "''/w/m/s/f''" ?s1]
  have B: "download_gh_file ?http ''/w/m/s/f'' ''u1'' example_self example_world
          = (Inr (), example_self,
             example_world\<lparr>fs := ?s1\<lparr>regular_files :=
                               (regular_files (fs example_world))(''/w/m/s/f'' \<mapsto> [104, 105])\<rparr>,
               requests := requests example_world @ [''u1'']\<rparr>)"
    by blast
  from h A B show ?thesis by (simp add: example_world_def)
qed

section \<open>Properties of \<open>install\<close>\<close>

text \<open>
  \<open>get_modules_file_tree\<close> makes one request and leaves the file system and the working
  directory as they were; the download loop, when it ends without an exception, returns
  \<open>None\<close>; \<open>install\<close> is the fetch followed by the two checks and the loop.
\<close>

lemma get_modules_file_tree_world:
  "snd (snd (get_modules_file_tree http self w))
     = w\<lparr>requests := requests w @ [tree_api_url (modules_repo self)]\<rparr>"
  by (simp add: get_modules_file_tree_def requests_get_def Let_def split: json_body.splits)

lemma get_modules_file_tree_pipeline_dir:
  "pipeline_dir (fst (snd (get_modules_file_tree http self w))) = pipeline_dir self"
  by (simp add: get_modules_file_tree_def requests_get_def Let_def split: json_body.splits)

lemma install_loop_value:
  "fst (install_loop http files self w) = Inr v \<Longrightarrow> v = PyNone"
proof (induction files arbitrary: self w)
  case Nil
  then show ?case by simp
next
  case (Cons a files)
  obtain filename api_url where a: "a = (filename, api_url)" by (cases a)
  obtain r self1 w1 where
    d: "download_gh_file http (os_path_join (pipeline_dir self) [''modules'', filename])
          api_url self w = (r, self1, w1)"
    by (metis prod_cases3)
  show ?case
  proof (cases r)
    case (Inl e)
    with Cons.prems a d show ?thesis by simp
  next
    case (Inr u)
    with Cons.prems a d have "fst (install_loop http files self1 w1) = Inr v" by simp
    then show ?thesis by (rule Cons.IH)
  qed
qed

lemma install_cases:
  "install http module self w =
     (let r = get_modules_file_tree http self w; self1 = fst (snd r); w1 = snd (snd r)
      in case fst r of
           Inl e \<Rightarrow> (Inl e, self1, w1)
         | Inr u \<Rightarrow>
             if module \<notin> set (modules_avail_module_names self1)
             then (Inr (PyBool False), self1, w1)
             else if os_path_exists (fs w1)
                       (os_path_join (pipeline_dir self1) [''modules'', ''software'', module])
             then (Inr (PyBool False), self1, w1)
             else install_loop http (collect_file_urls module (modules_file_tree self1) [])
                    self1 w1)"
  by (cases "get_modules_file_tree http self w" rule: prod_cases3)
     (simp add: install_def get_module_file_urls_def Let_def split: sum.splits)

lemma os_path_join_module_dir:
  assumes "pd \<noteq> []" "\<not> endswith pd ''/''" "\<not> startswith module ''/''"
  shows "os_path_join pd [''modules'', ''software'', module] = pd @ ''/modules/software/'' @ module"
proof -
  have 1: "join_step pd ''modules'' = pd @ ''/modules''"
    using assms(1,2) by (simp add: join_step_def startswith_def)
  have 2: "join_step (pd @ ''/modules'') ''software'' = pd @ ''/modules/software''"
    by (simp add: join_step_def startswith_def endswith_def)
  have 3: "join_step (pd @ ''/modules/software'') module = pd @ ''/modules/software/'' @ module"
    using assms(3) by (simp add: join_step_def endswith_def)
  show ?thesis by (simp add: os_path_join_def 1 2 3)
qed

text \<open>
  Claim C5. When the tree is fetched and the module name is not in the list of available
  names, \<open>install\<close> returns \<open>False\<close>, the file system is as before (no directory made,
  no file written), and the only request made is the tree request.
\<close>

theorem install_module_not_found:
  assumes "fst (get_modules_file_tree http self w) = Inr ()"
    and "module \<notin> set (modules_avail_module_names (fst (snd (get_modules_file_tree http self w))))"
  shows "fst (install http module self w) = Inr (PyBool False)
       \<and> fs (snd (snd (install http module self w))) = fs w
       \<and> requests (snd (snd (install http module self w)))
           = requests w @ [tree_api_url (modules_repo self)]"
  using assms by (simp add: install_cases Let_def get_modules_file_tree_world)

theorem install_module_not_found_witness:
  "fst (get_modules_file_tree example_server example_self example_world) = Inr ()
   \<and> ''doesnotexist'' \<notin> set (modules_avail_module_names
        (fst (snd (get_modules_file_tree example_server example_self example_world))))
   \<and> fst (install example_server ''doesnotexist'' example_self example_world)
       = Inr (PyBool False)
   \<and> fs (snd (snd (install example_server ''doesnotexist'' example_self example_world)))
       = fs example_world
   \<and> requests (snd (snd (install example_server ''doesnotexist'' example_self example_world)))
       = [''https://api.github.com/repos/r/git/trees/b?recursive=1'']"
proof -
  have a: "fst (get_modules_file_tree example_server example_self example_world) = Inr ()"
    by code_simp
  have b: "''doesnotexist'' \<notin> set (modules_avail_module_names
        (fst (snd (get_modules_file_tree example_server example_self example_world))))"
    by code_simp
  have c: "requests example_world @ [tree_api_url (modules_repo example_self)]
       = [''https://api.github.com/repos/r/git/trees/b?recursive=1'']"
    by code_simp
  from install_module_not_found [OF a b] a b show ?thesis
    unfolding c by (simp only: simp_thms)
qed

text \<open>
  Claim C6. When the tree is fetched, the module is available and the module directory
  (the working directory joined with \<open>modules\<close>, \<open>software\<close> and the module name) exists,
  \<open>install\<close> returns \<open>False\<close>, the file system is as before, and no blob URL is
  requested. For a non-empty working directory without a trailing slash and a module
  name without a leading slash that directory is \<open>pipeline_dir/modules/software/module\<close>.
\<close>

theorem install_directory_exists:
  assumes "fst (get_modules_file_tree http self w) = Inr ()"
    and "module \<in> set (modules_avail_module_names (fst (snd (get_modules_file_tree http self w))))"
    and "os_path_exists (fs w)
           (os_path_join (pipeline_dir self) [''modules'', ''software'', module])"
  shows "fst (install http module self w) = Inr (PyBool False)
       \<and> fs (snd (snd (install http module self w))) = fs w
       \<and> requests (snd (snd (install http module self w)))
           = requests w @ [tree_api_url (modules_repo self)]
       \<and> (pipeline_dir self \<noteq> [] \<and> \<not> endswith (pipeline_dir self) ''/''
            \<and> \<not> startswith module ''/'' \<longrightarrow>
          os_path_join (pipeline_dir self) [''modules'', ''software'', module]
            = pipeline_dir self @ ''/modules/software/'' @ module)"
  using assms
  by (simp add: install_cases Let_def get_modules_file_tree_world
        get_modules_file_tree_pipeline_dir os_path_join_module_dir)

theorem install_directory_exists_witness:
  "fst (get_modules_file_tree example_server example_self example_world_installed) = Inr ()
   \<and> ''fastqc'' \<in> set (modules_avail_module_names
        (fst (snd (get_modules_file_tree example_server example_self example_world_installed))))
   \<and> os_path_exists (fs example_world_installed)
        (os_path_join (pipeline_dir example_self) [''modules'', ''software'', ''fastqc''])
   \<and> os_path_join (pipeline_dir example_self) [''modules'', ''software'', ''fastqc'']
       = ''/w/modules/software/fastqc''
   \<and> fst (install example_server ''fastqc'' example_self example_world_installed)
       = Inr (PyBool False)
   \<and> fs (snd (snd (install example_server ''fastqc'' example_self example_world_installed)))
       = fs example_world_installed
   \<and> requests (snd (snd (install example_server ''fastqc'' example_self
                            example_world_installed)))
       = [''https://api.github.com/repos/r/git/trees/b?recursive=1'']"
proof -
  have a: "fst (get_modules_file_tree example_server example_self example_world_installed)
           = Inr ()"
    by code_simp
  have b: "''fastqc'' \<in> set (modules_avail_module_names
        (fst (snd (get_modules_file_tree example_server example_self example_world_installed))))"
    by code_simp
  have c: "os_path_exists (fs example_world_installed)
        (os_path_join (pipeline_dir example_self) [''modules'', ''software'', ''fastqc''])"
    by code_simp
  have d: "requests example_world_installed @ [tree_api_url (modules_repo example_self)]
       = [''https://api.github.com/repos/r/git/trees/b?recursive=1'']"
    by code_simp
  have e: "pipeline_dir example_self \<noteq> [] \<and> \<not> endswith (pipeline_dir example_self) ''/''
            \<and> \<not> startswith ''fastqc'' ''/''"
    by code_simp
  have f: "pipeline_dir example_self @ ''/modules/software/'' @ ''fastqc''
         = ''/w/modules/software/fastqc''"
    by code_simp
  from install_directory_exists [OF a b c] e
  have "fst (install example_server ''fastqc'' example_self example_world_installed)
          = Inr (PyBool False)
       \<and> fs (snd (snd (install example_server ''fastqc'' example_self example_world_installed)))
          = fs example_world_installed
       \<and> requests (snd (snd (install example_server ''fastqc'' example_self
                               example_world_installed)))
          = requests example_world_installed @ [tree_api_url (modules_repo example_self)]
       \<and> os_path_join (pipeline_dir example_self) [''modules'', ''software'', ''fastqc'']
            = pipeline_dir example_self @ ''/modules/software/'' @ ''fastqc''"
    by blast
  with a b c show ?thesis unfolding d f by (simp only: simp_thms)
qed

text \<open>
  Claim C3, as the source has it: on the example the download loop ends without an
  exception, the files are written, and \<open>install\<close> returns \<open>None\<close>, not \<open>True\<close>.
\<close>

theorem install_success_returns_none:
  "fst (install example_server ''fastqc'' example_self example_world) = Inr PyNone
   \<and> fst (install example_server ''fastqc'' example_self example_world) \<noteq> Inr (PyBool True)
   \<and> regular_files (fs (snd (snd (install example_server ''fastqc'' example_self
                                    example_world))))
        ''/w/modules/software/fastqc/main.nf'' = Some [104, 105]
   \<and> requests (snd (snd (install example_server ''fastqc'' example_self example_world)))
       = [''https://api.github.com/repos/r/git/trees/b?recursive=1'', ''u1'', ''u2'', ''u3'']"
  by code_simp

text \<open>
  Claim C3, amended. \<open>install\<close> returns \<open>False\<close> when the module name is not available
  and when the module directory exists; otherwise it runs the download loop, and when
  that ends without an exception the value returned is \<open>None\<close>. It never returns
  \<open>True\<close>.
\<close>

theorem install_return_value:
  "fst (install http module self w) \<noteq> Inr (PyBool True)
   \<and> (fst (get_modules_file_tree http self w) = Inr ()
        \<and> module \<notin> set (modules_avail_module_names
                           (fst (snd (get_modules_file_tree http self w)))) \<longrightarrow>
      fst (install http module self w) = Inr (PyBool False))
   \<and> (fst (get_modules_file_tree http self w) = Inr ()
        \<and> os_path_exists (fs w)
             (os_path_join (pipeline_dir self) [''modules'', ''software'', module]) \<longrightarrow>
      fst (install http module self w) = Inr (PyBool False))
   \<and> (fst (get_modules_file_tree http self w) = Inr ()
        \<and> module \<in> set (modules_avail_module_names
                           (fst (snd (get_modules_file_tree http self w))))
        \<and> \<not> os_path_exists (fs w)
             (os_path_join (pipeline_dir self) [''modules'', ''software'', module]) \<longrightarrow>
      install http module self w
        = install_loop http
            (collect_file_urls module
               (modules_file_tree (fst (snd (get_modules_file_tree http self w)))) [])
            (fst (snd (get_modules_file_tree http self w)))
            (snd (snd (get_modules_file_tree http self w)))
      \<and> (\<forall>v. fst (install http module self w) = Inr v \<longrightarrow> v = PyNone))"
proof -
  have a: "fst (install http module self w) \<noteq> Inr (PyBool True)"
  proof
    assume t: "fst (install http module self w) = Inr (PyBool True)"
    show False
    proof (cases "fst (get_modules_file_tree http self w)")
      case (Inl e)
      with t show False by (simp add: install_cases Let_def)
    next
      case (Inr u)
      with t install_loop_value [of http _ _ _ "PyBool True"] show False
        by (simp add: install_cases Let_def split: if_splits)
    qed
  qed
  have b: "fst (install http module self w) = Inr (PyBool False)"
    if "fst (get_modules_file_tree http self w) = Inr ()"
      "os_path_exists (fs w)
             (os_path_join (pipeline_dir self) [''modules'', ''software'', module])"
    using that
    by (simp add: install_cases Let_def get_modules_file_tree_world
          get_modules_file_tree_pipeline_dir)
  show ?thesis
    using a b install_loop_value [of http _ _ _ ]
    by (auto simp: install_cases Let_def get_modules_file_tree_world
          get_modules_file_tree_pipeline_dir)
qed

theorem install_return_value_witness:
  "fst (install example_server ''doesnotexist'' example_self example_world)
     = Inr (PyBool False)
   \<and> fst (install example_server ''fastqc'' example_self example_world_installed)
     = Inr (PyBool False)
   \<and> fst (install example_server ''fastqc'' example_self example_world) = Inr PyNone"
proof -
  have a: "fst (get_modules_file_tree example_server example_self example_world) = Inr ()"
    by code_simp
  have a': "fst (get_modules_file_tree example_server example_self example_world_installed)
            = Inr ()"
    by code_simp
  have b: "''doesnotexist'' \<notin> set (modules_avail_module_names
        (fst (snd (get_modules_file_tree example_server example_self example_world))))"
    by code_simp
  have c: "os_path_exists (fs example_world_installed)
        (os_path_join (pipeline_dir example_self) [''modules'', ''software'', ''fastqc''])"
    by code_simp
  have d: "''fastqc'' \<in> set (modules_avail_module_names
        (fst (snd (get_modules_file_tree example_server example_self example_world))))
        \<and> \<not> os_path_exists (fs example_world)
        (os_path_join (pipeline_dir example_self) [''modules'', ''software'', ''fastqc''])"
    by code_simp
  have "fst (install example_server ''fastqc'' example_self example_world) = Inr PyNone"
    by code_simp
  then have e: "\<exists>v. fst (install example_server ''fastqc'' example_self example_world) = Inr v"
    by blast
  from install_return_value [of example_server "''doesnotexist''" example_self example_world]
    a b
  have 1: "fst (install example_server ''doesnotexist'' example_self example_world)
     = Inr (PyBool False)"
    by blast
  from install_return_value [of example_server "''fastqc''" example_self
         example_world_installed] a' c
  have 2: "fst (install example_server ''fastqc'' example_self example_world_installed)
     = Inr (PyBool False)"
    by blast
  from install_return_value [of example_server "''fastqc''" example_self example_world] a d
  have "\<forall>v. fst (install example_server ''fastqc'' example_self example_world) = Inr v
          \<longrightarrow> v = PyNone"
    by blast
  with e have 3: "fst (install example_server ''fastqc'' example_self example_world)
     = Inr PyNone"
    by blast
  from 1 2 3 show ?thesis by (simp only: simp_thms)
qed

end
